theory Spec2Isabelle
  imports Complex_Main
begin

section \<open>Data model (src/types.ts)\<close>

text \<open>
  JavaScript numbers are IEEE doubles. The fill smoothing and the spawning of particles
  are modelled with the rounding of every operation (section ``Double arithmetic'').
  The geometry, the particle motion and the hit test are modelled over the real
  numbers, without rounding, overflow or infinities; there, the one special value that
  the arithmetic can produce from ordinary numbers, NaN, is written out where it can
  arise: \<open>Math.sqrt\<close> of a negative number, and the division \<open>0 / 0\<close>.
\<close>

datatype ContainerType = CUBE | CYLINDER | SPHERE

datatype MatterState = EMPTY | SOLID | LIQUID | GAS

record ContainerData =
  c_id :: int
  c_type :: ContainerType
  c_matter :: MatterState
  c_label :: string

text \<open>
  A particle's colour is read from an array by a computed index; \<open>None\<close> is the
  \<open>undefined\<close> that JavaScript returns for an index outside the array.
\<close>

record Particle =
  p_x :: real
  p_y :: real
  p_vx :: real
  p_vy :: real
  p_radius :: real
  p_color :: "string option"

record Bounds =
  b_id :: int
  b_x :: real
  b_y :: real
  b_w :: real
  b_h :: real

text \<open>The animation state held in \<open>simStateRef\<close>.\<close>

record SimState =
  waterLevels :: "real list"
  currentWaterLevels :: "real list"
  particles :: "Particle list list"
  containerBounds :: "Bounds list"

datatype shape = RECT | CIRCLE

section \<open>Double arithmetic\<close>

text \<open>
  \<open>rne\<close> rounds a real number to the nearest integer, a tie to the even one.
  \<open>expo x\<close> is the exponent of the binade of \<open>x\<close>, not below that of the subnormal
  numbers; \<open>ulp x\<close> is the distance between neighbouring doubles there, and \<open>fl x\<close> is
  the double nearest to \<open>x\<close>: the result of an operation whose exact result is \<open>x\<close>.
  Overflow to infinity (from \<open>2 ^ 1024\<close> on) is left out.
\<close>

definition rne :: "real \<Rightarrow> int" where
  "rne q =
     (let f = \<lfloor>q\<rfloor>; d = q - of_int f in
      if d < 1 / 2 then f
      else if 1 / 2 < d then f + 1
      else if even f then f else f + 1)"

definition expo :: "real \<Rightarrow> int" where
  "expo x = (if x = 0 then - 1022 else max \<lfloor>log 2 \<bar>x\<bar>\<rfloor> (- 1022))"

definition ulp :: "real \<Rightarrow> real" where
  "ulp x = 2 powi (expo x - 52)"

definition fl :: "real \<Rightarrow> real" where
  "fl x = of_int (rne (x / ulp x)) * ulp x"

text \<open>Every double is an integral multiple of \<open>2 ^ -1074\<close>.\<close>

definition onGrid :: "real \<Rightarrow> bool" where
  "onGrid x = (\<exists>n::int. x = of_int n * 2 powi (- 1074))"

section \<open>Liquid fill smoothing (drawScene)\<close>

text \<open>
  One frame of \<open>state.currentWaterLevels[i] = current + (target - current) * 0.05\<close>:
  the difference, the product with the double nearest to \<open>0.05\<close> and the sum are each
  rounded. \<open>fillIter\<close> is \<open>n\<close> frames of it with an unchanged target.
\<close>

definition fillStep :: "real \<Rightarrow> real \<Rightarrow> real" where
  "fillStep target current = fl (current + fl (fl (target - current) * fl 0.05))"

fun fillIter :: "nat \<Rightarrow> real \<Rightarrow> real \<Rightarrow> real" where
  "fillIter 0 target current = current"
| "fillIter (Suc n) target current = fillIter n target (fillStep target current)"

section \<open>Pointer hit test (handleClick)\<close>

text \<open>
  \<open>handleClick\<close> returns the ids passed to \<open>onSelect\<close>, in call order. The first
  argument is the canvas rectangle's \<open>(left, top)\<close>, or \<open>None\<close> when
  \<open>canvasRef.current\<close> is null and the handler returns at once.
\<close>

definition inHitbox :: "real \<Rightarrow> real \<Rightarrow> Bounds \<Rightarrow> bool" where
  "inHitbox x y b =
     (x \<ge> b_x b - 10 \<and> x \<le> b_x b + b_w b + 10 \<and> y \<ge> b_y b - 40 \<and> y \<le> b_y b + b_h b + 40)"

fun selectAll :: "real \<Rightarrow> real \<Rightarrow> Bounds list \<Rightarrow> int list" where
  "selectAll x y [] = []"
| "selectAll x y (b # bs) = (if inHitbox x y b then b_id b # selectAll x y bs else selectAll x y bs)"

definition handleClick :: "(real \<times> real) option \<Rightarrow> real \<Rightarrow> real \<Rightarrow> Bounds list \<Rightarrow> int list" where
  "handleClick canvas clientX clientY bounds =
     (case canvas of
        None \<Rightarrow> []
      | Some (rectLeft, rectTop) \<Rightarrow> selectAll (clientX - rectLeft) (clientY - rectTop) bounds)"

text \<open>The three bounds of the hit-test scenario, with the vessels' ids as parameters.\<close>

definition scenarioBounds :: "int \<Rightarrow> int \<Rightarrow> int \<Rightarrow> Bounds list" where
  "scenarioBounds i1 i2 i3 =
     [\<lparr>b_id = i1, b_x = 50, b_y = 100, b_w = 140, b_h = 140\<rparr>,
      \<lparr>b_id = i2, b_x = 250, b_y = 100, b_w = 140, b_h = 140\<rparr>,
      \<lparr>b_id = i3, b_x = 450, b_y = 100, b_w = 140, b_h = 140\<rparr>]"

section \<open>Canvas calls and colours\<close>

text \<open>
  Drawing is modelled by the list of calls made on the 2D context, in call order. Only
  the calls that the modelled functions make are listed.
\<close>

datatype cmd =
    FillStyle string
  | StrokeStyle string
  | LineWidth real
  | LineCap string
  | BeginPath
  | ClosePath
  | MoveTo real real
  | LineTo real real
  | Arc real real real real real
  | Ellipse real real real real real real real
  | Fill
  | Stroke
  | FillRect real real real real
  | Clip
  | Save
  | Restore
  | Translate real real

definition glassBorder :: string where
  "glassBorder = ''rgba(100, 130, 160, 0.5)''"

definition glassInnerStroke :: string where
  "glassInnerStroke = ''rgba(100, 130, 160, 0.2)''"

definition glassFill :: string where
  "glassFill = ''rgba(220, 240, 255, 0.2)''"

definition glassHighlight :: string where
  "glassHighlight = ''rgba(255, 255, 255, 0.6)''"

definition waterFill :: string where
  "waterFill = ''rgba(59, 130, 246, 0.5)''"

definition waterSurface :: string where
  "waterSurface = ''rgba(147, 197, 253, 0.8)''"

definition rock :: string where
  "rock = ''#57534e''"

definition rockLight :: string where
  "rockLight = ''#a8a29e''"

definition gasParticles :: "string list" where
  "gasParticles = [''#ef4444'', ''#f59e0b'', ''#10b981'', ''#8b5cf6'']"

section \<open>JavaScript primitives\<close>

text \<open>\<open>Math.sqrt\<close>: \<open>None\<close> is NaN, the result for a negative argument.\<close>

definition Math_sqrt :: "real \<Rightarrow> real option" where
  "Math_sqrt v = (if v < 0 then None else Some (sqrt v))"

text \<open>Reading \<open>xs[i]\<close> for an integral number \<open>i\<close>: \<open>None\<close> is \<open>undefined\<close>.\<close>

definition jsIndex :: "'a list \<Rightarrow> int \<Rightarrow> 'a option" where
  "jsIndex xs i = (if 0 \<le> i \<and> nat i < length xs then Some (xs ! nat i) else None)"

text \<open>
  What stops the model of a function: \<open>TypeError\<close> is the exception JavaScript raises
  on reading a property of \<open>undefined\<close>; \<open>Sparse\<close> marks a write beyond the end of
  an array, which would leave holes that a list does not represent.
\<close>

datatype fault = TypeError | Sparse

text \<open>Writing \<open>xs[i] = v\<close>: a write at \<open>i = xs.length\<close> extends the array by one.\<close>

definition setAt :: "'a list \<Rightarrow> nat \<Rightarrow> 'a \<Rightarrow> fault + 'a list" where
  "setAt xs i v =
     (if i < length xs then Inr (xs[i := v])
      else if i = length xs then Inr (xs @ [v])
      else Inl Sparse)"

section \<open>Initialising particles and water targets (the effect on the descriptor list)\<close>

text \<open>
  \<open>Math.random()\<close> is modelled by a sequence \<open>rnd\<close> of draws and the position \<open>k\<close> of
  the next draw. A new particle takes four draws, in the order of the object literal:
  \<open>vx\<close>, \<open>vy\<close>, \<open>radius\<close>, \<open>color\<close>. Every operation on a draw is rounded.
\<close>

definition newParticle :: "(nat \<Rightarrow> real) \<Rightarrow> nat \<Rightarrow> Particle" where
  "newParticle rnd k =
     \<lparr>p_x = 0, p_y = 0,
      p_vx = fl (fl (rnd k - 0.5) * 3),
      p_vy = fl (fl (rnd (k + 1) - 0.5) * 3),
      p_radius = fl (4 + fl (rnd (k + 2) * 4)),
      p_color = jsIndex gasParticles \<lfloor>fl (rnd (k + 3) * real (length gasParticles))\<rfloor>\<rparr>"

text \<open>
  The loop \<open>for (let i = 0; i < 40; i++) newParticles.push(...)\<close>; the first argument
  counts the iterations that remain.
\<close>

fun spawnLoop :: "nat \<Rightarrow> (nat \<Rightarrow> real) \<Rightarrow> nat \<Rightarrow> Particle list \<Rightarrow> Particle list \<times> nat" where
  "spawnLoop 0 rnd k newParticles = (newParticles, k)"
| "spawnLoop (Suc n) rnd k newParticles =
     spawnLoop n rnd (k + 4) (newParticles @ [newParticle rnd k])"

text \<open>The body of \<open>containers.forEach((c, index) => ...)\<close>.\<close>

definition effectBody ::
  "ContainerData \<Rightarrow> nat \<Rightarrow> (nat \<Rightarrow> real) \<Rightarrow> nat \<Rightarrow> SimState \<Rightarrow> fault + (SimState \<times> nat)" where
  "effectBody c index rnd k state =
     (case setAt (waterLevels state) index (if c_matter c = LIQUID then 0.7 else 0) of
        Inl e \<Rightarrow> Inl e
      | Inr wl \<Rightarrow>
          (let s1 = state\<lparr>waterLevels := wl\<rparr> in
           if c_matter c = GAS then
             (if index < length (particles s1) then
                (if length (particles s1 ! index) = 0 then
                   (case spawnLoop 40 rnd k [] of
                      (newParticles, k') \<Rightarrow>
                        Inr (s1\<lparr>particles := (particles s1)[index := newParticles]\<rparr>, k'))
                 else Inr (s1, k))
              else Inl TypeError)
           else
             (case setAt (particles s1) index [] of
                Inl e \<Rightarrow> Inl e
              | Inr ps \<Rightarrow> Inr (s1\<lparr>particles := ps\<rparr>, k))))"

fun effectLoop ::
  "ContainerData list \<Rightarrow> nat \<Rightarrow> (nat \<Rightarrow> real) \<Rightarrow> nat \<Rightarrow> SimState \<Rightarrow> fault + (SimState \<times> nat)" where
  "effectLoop [] index rnd k state = Inr (state, k)"
| "effectLoop (c # cs) index rnd k state =
     (case effectBody c index rnd k state of
        Inl e \<Rightarrow> Inl e
      | Inr (state', k') \<Rightarrow> effectLoop cs (Suc index) rnd k' state')"

text \<open>
  The effect that React runs when the descriptor list \<open>containers\<close> is a new array
  instance.
\<close>

definition initEffect ::
  "ContainerData list \<Rightarrow> (nat \<Rightarrow> real) \<Rightarrow> nat \<Rightarrow> SimState \<Rightarrow> fault + (SimState \<times> nat)" where
  "initEffect containers rnd k state = effectLoop containers 0 rnd k state"

text \<open>
  What the effect leaves in one slot, for the descriptor \<open>c\<close> of the slot, the batch
  \<open>old\<close> found there, the target fill \<open>target\<close> and the batch \<open>new\<close> left there.
\<close>

definition slotOutcome :: "ContainerData \<Rightarrow> Particle list \<Rightarrow> real \<Rightarrow> Particle list \<Rightarrow> bool" where
  "slotOutcome c old target new =
     (target = (if c_matter c = LIQUID then 0.7 else 0) \<and>
      (if c_matter c = GAS then (if old = [] then length new = 40 else new = old)
       else new = []))"

section \<open>Particle motion (updateParticles)\<close>

text \<open>
  The parameter \<open>by\<close> of the source is written \<open>byy\<close>. The init check of the
  callback comes after the position has been advanced.
\<close>

definition initCheck :: "real \<Rightarrow> real \<Rightarrow> real \<Rightarrow> real \<Rightarrow> shape \<Rightarrow> Particle \<Rightarrow> Particle" where
  "initCheck bx byy bw bh sh p =
     (if p_x p = 0 \<and> p_y p = 0 then
        (if sh = RECT then p\<lparr>p_x := bx + bw / 2, p_y := byy + bh / 2\<rparr>
         else p\<lparr>p_x := bx, p_y := byy\<rparr>)
      else p)"

text \<open>The four wall tests of the \<open>RECT\<close> shape, one after the other.\<close>

definition rectBounds :: "real \<Rightarrow> real \<Rightarrow> real \<Rightarrow> real \<Rightarrow> Particle \<Rightarrow> Particle" where
  "rectBounds bx byy bw bh p0 =
     (let p1 = (if p_x p0 < bx + p_radius p0
                then p0\<lparr>p_x := bx + p_radius p0, p_vx := p_vx p0 * (- 1)\<rparr> else p0);
          p2 = (if p_x p1 > bx + bw - p_radius p1
                then p1\<lparr>p_x := bx + bw - p_radius p1, p_vx := p_vx p1 * (- 1)\<rparr> else p1);
          p3 = (if p_y p2 < byy + p_radius p2
                then p2\<lparr>p_y := byy + p_radius p2, p_vy := p_vy p2 * (- 1)\<rparr> else p2);
          p4 = (if p_y p3 > byy + bh - p_radius p3
                then p3\<lparr>p_y := byy + bh - p_radius p3, p_vy := p_vy p3 * (- 1)\<rparr> else p3)
      in p4)"

text \<open>
  The \<open>CIRCLE\<close> shape: \<open>(bx, byy)\<close> is the centre and \<open>bw\<close> the radius. The second
  velocity assignment reads \<open>p.vx\<close> after the first has changed it. When the distance
  (\<open>dist\<close> in the source, \<open>dist1\<close> here) is \<open>0\<close>, the normal is \<open>0 / 0\<close>, NaN in
  JavaScript, and position and velocity become NaN: the result \<open>None\<close>.
\<close>

definition circleBounds :: "real \<Rightarrow> real \<Rightarrow> real \<Rightarrow> Particle \<Rightarrow> Particle option" where
  "circleBounds bx byy bw p =
     (let dx = p_x p - bx; dy = p_y p - byy in
      case Math_sqrt (dx * dx + dy * dy) of
        None \<Rightarrow> Some p
      | Some dist1 \<Rightarrow>
          if dist1 > bw - p_radius p then
            (if dist1 = 0 then None
             else
               (let nx = dx / dist1; ny = dy / dist1;
                    vx1 = p_vx p - 2 * (p_vx p * nx + p_vy p * ny) * nx;
                    vy1 = p_vy p - 2 * (vx1 * nx + p_vy p * ny) * ny
                in Some (p\<lparr>p_vx := vx1, p_vy := vy1,
                           p_x := bx + nx * (bw - p_radius p - 1),
                           p_y := byy + ny * (bw - p_radius p - 1)\<rparr>)))
          else Some p)"

text \<open>The state change that the callback of \<open>particles.forEach\<close> makes to one particle.\<close>

definition updateParticle ::
  "real \<Rightarrow> real \<Rightarrow> real \<Rightarrow> real \<Rightarrow> shape \<Rightarrow> Particle \<Rightarrow> Particle option" where
  "updateParticle bx byy bw bh sh p =
     (let p1 = p\<lparr>p_x := p_x p + p_vx p\<rparr>;
          p2 = p1\<lparr>p_y := p_y p1 + p_vy p1\<rparr>;
          p3 = initCheck bx byy bw bh sh p2
      in case sh of
           RECT \<Rightarrow> Some (rectBounds bx byy bw bh p3)
         | CIRCLE \<Rightarrow> circleBounds bx byy bw p3)"

text \<open>
  The drawing at the end of the callback. An assignment of \<open>undefined\<close> to
  \<open>fillStyle\<close> is ignored by the canvas and leaves no call.
\<close>

definition drawParticle :: "Particle \<Rightarrow> cmd list" where
  "drawParticle p =
     [BeginPath] @ (case p_color p of None \<Rightarrow> [] | Some c \<Rightarrow> [FillStyle c]) @
     [Arc (p_x p) (p_y p) (p_radius p) 0 (pi * 2), Fill]"

fun updateParticles ::
  "real \<Rightarrow> real \<Rightarrow> real \<Rightarrow> real \<Rightarrow> shape \<Rightarrow> Particle list \<Rightarrow> (cmd list \<times> Particle list) option" where
  "updateParticles bx byy bw bh sh [] = Some ([], [])"
| "updateParticles bx byy bw bh sh (p # ps) =
     (case updateParticle bx byy bw bh sh p of
        None \<Rightarrow> None
      | Some p' \<Rightarrow>
          (case updateParticles bx byy bw bh sh ps of
             None \<Rightarrow> None
           | Some (cs, ps') \<Rightarrow> Some (drawParticle p' @ cs, p' # ps')))"

text \<open>\<open>n\<close> frames of one particle in an unchanged confinement shape.\<close>

fun ticks ::
  "nat \<Rightarrow> real \<Rightarrow> real \<Rightarrow> real \<Rightarrow> real \<Rightarrow> shape \<Rightarrow> Particle \<Rightarrow> Particle option" where
  "ticks 0 bx byy bw bh sh p = Some p"
| "ticks (Suc n) bx byy bw bh sh p =
     (case updateParticle bx byy bw bh sh p of
        None \<Rightarrow> None
      | Some p' \<Rightarrow> ticks n bx byy bw bh sh p')"

text \<open>The quantities the claims speak of: speed, distance from a centre, the inner rectangle.\<close>

definition speed :: "Particle \<Rightarrow> real" where
  "speed p = sqrt (p_vx p * p_vx p + p_vy p * p_vy p)"

definition distFrom :: "real \<Rightarrow> real \<Rightarrow> Particle \<Rightarrow> real" where
  "distFrom cx cy p = sqrt ((p_x p - cx) * (p_x p - cx) + (p_y p - cy) * (p_y p - cy))"

definition insideRect :: "real \<Rightarrow> real \<Rightarrow> real \<Rightarrow> real \<Rightarrow> Particle \<Rightarrow> bool" where
  "insideRect bx byy bw bh p =
     (bx + p_radius p \<le> p_x p \<and> p_x p \<le> bx + bw - p_radius p \<and>
      byy + p_radius p \<le> p_y p \<and> p_y p \<le> byy + bh - p_radius p)"

section \<open>The bowl (drawRock, drawSphere)\<close>

definition drawRock :: "real \<Rightarrow> real \<Rightarrow> real \<Rightarrow> cmd list" where
  "drawRock x y size1 =
     [Save, Translate x y, FillStyle rock, StrokeStyle ''#292524'', LineWidth 2,
      BeginPath, MoveTo 0 0,
      LineTo (size1 * 0.3) (- size1 * 0.2),
      LineTo (size1 * 0.6) 0,
      LineTo (size1 * 0.8) (size1 * 0.4),
      LineTo (size1 * 0.5) (size1 * 0.7),
      LineTo (size1 * 0.1) (size1 * 0.5),
      ClosePath, Fill, Stroke,
      FillStyle rockLight, BeginPath,
      MoveTo (size1 * 0.3) (- size1 * 0.2),
      LineTo (size1 * 0.5) (size1 * 0.2),
      LineTo 0 0,
      Fill, Restore]"

text \<open>Part 1 of \<open>drawSphere\<close>: the glass body.\<close>

definition sphereGlassBody :: "real \<Rightarrow> real \<Rightarrow> real \<Rightarrow> cmd list" where
  "sphereGlassBody cx cy r =
     [FillStyle glassFill, BeginPath, Arc cx cy r 0 (pi * 2), Fill,
      LineWidth 1, StrokeStyle glassInnerStroke, Stroke]"

text \<open>
  Part 2 of \<open>drawSphere\<close> for a liquid: the clipped fill rectangle and, behind the
  guard \<open>!isNaN(surfaceR) && surfaceR > 0\<close>, the surface ellipse.
\<close>

definition sphereLiquid :: "real \<Rightarrow> real \<Rightarrow> real \<Rightarrow> real \<Rightarrow> real \<Rightarrow> real \<Rightarrow> cmd list" where
  "sphereLiquid x w cx cy r waterLevel =
     [Save, BeginPath, Arc cx cy r 0 (pi * 2), Clip] @
     (let lh = (2 * r) * waterLevel;
          wy = (cy + r) - lh;
          distFromCenter = \<bar>cy - wy\<bar>;
          surfaceR = Math_sqrt (r * r - distFromCenter * distFromCenter)
      in [FillStyle waterFill, FillRect x wy w lh] @
         (case surfaceR of
            None \<Rightarrow> []
          | Some sr \<Rightarrow>
              if sr > 0 then
                [FillStyle waterSurface, BeginPath,
                 Ellipse cx wy sr (sr * 0.3) 0 0 (pi * 2), Fill]
              else [])) @
     [Restore]"

text \<open>Part 3 of \<open>drawSphere\<close>: outline, opening rim and the two highlights.\<close>

definition sphereGlassDetails ::
  "real \<Rightarrow> real \<Rightarrow> real \<Rightarrow> real \<Rightarrow> real \<Rightarrow> real \<Rightarrow> cmd list" where
  "sphereGlassDetails cx cy r openR openRy openY =
     [LineWidth 2, StrokeStyle glassBorder,
      BeginPath, Arc cx cy r 0 (pi * 2), Stroke,
      FillStyle ''rgba(255,255,255,0.1)'',
      BeginPath, Ellipse cx openY openR openRy 0 0 (pi * 2), Fill, Stroke,
      BeginPath, Arc cx cy (r - 6) (pi * 1.2) (pi * 1.4),
      StrokeStyle glassHighlight, LineWidth 4, LineCap ''round'', Stroke,
      BeginPath, Arc cx cy (r - 6) (pi * 0.2) (pi * 0.3),
      LineWidth 2, Stroke]"

text \<open>
  \<open>drawSphere\<close> returns the calls it makes and the particles as it leaves them;
  \<open>None\<close> as for \<open>updateParticles\<close>. The argument \<open>h\<close> of the source is only
  used for the centre.
\<close>

definition drawSphere ::
  "real \<Rightarrow> real \<Rightarrow> real \<Rightarrow> real \<Rightarrow> MatterState \<Rightarrow> real \<Rightarrow> Particle list \<Rightarrow>
   (cmd list \<times> Particle list) option" where
  "drawSphere x y w h matter waterLevel ps =
     (let cx = x + w / 2;
          cy = y + h / 2 + 10;
          r = w / 2 - 10;
          openR = r * 0.6;
          openRy = openR * 0.25;
          openY = cy - r + 5;
          contents =
            (if matter = SOLID then Some (drawRock (cx - 15) (cy + r - 40) 50, ps)
             else if matter = LIQUID then Some (sphereLiquid x w cx cy r waterLevel, ps)
             else if matter = GAS then updateParticles cx cy r r CIRCLE ps
             else Some ([], ps))
      in case contents of
           None \<Rightarrow> None
         | Some (cs, ps') \<Rightarrow>
             Some (sphereGlassBody cx cy r @ cs @
                   sphereGlassDetails cx cy r openR openRy openY, ps'))"

text \<open>The ellipse calls of a frame.\<close>

fun isEllipse :: "cmd \<Rightarrow> bool" where
  "isEllipse (Ellipse cx cy rx ry rot a0 a1) = True"
| "isEllipse c = False"

section \<open>Example states\<close>

text \<open>
  The three descriptors of \<open>App.tsx\<close> with a gas in the box and a liquid in the jar, and
  the same list after the box was switched to a solid and the bowl to a gas.
\<close>

definition gasLiquidEmpty :: "ContainerData list" where
  "gasLiquidEmpty =
     [\<lparr>c_id = 1, c_type = CUBE, c_matter = GAS, c_label = ''Cube Box''\<rparr>,
      \<lparr>c_id = 2, c_type = CYLINDER, c_matter = LIQUID, c_label = ''Tall Jar''\<rparr>,
      \<lparr>c_id = 3, c_type = SPHERE, c_matter = EMPTY, c_label = ''Round Bowl''\<rparr>]"

definition solidLiquidGas :: "ContainerData list" where
  "solidLiquidGas =
     [\<lparr>c_id = 1, c_type = CUBE, c_matter = SOLID, c_label = ''Cube Box''\<rparr>,
      \<lparr>c_id = 2, c_type = CYLINDER, c_matter = LIQUID, c_label = ''Tall Jar''\<rparr>,
      \<lparr>c_id = 3, c_type = SPHERE, c_matter = GAS, c_label = ''Round Bowl''\<rparr>]"

text \<open>
  A state of the first list in mid-animation: the box holds 40 particles in the corner
  \<open>(66, 137)\<close>, the jar's fill has risen to \<open>0.5\<close> of its target \<open>0.7\<close>.
\<close>

definition cornerParticle :: Particle where
  "cornerParticle =
     \<lparr>p_x = 66, p_y = 137, p_vx = - (3 / 4), p_vy = - (3 / 4), p_radius = 6,
      p_color = Some ''#ef4444''\<rparr>"

definition midState :: SimState where
  "midState =
     \<lparr>waterLevels = [0, 7 / 10, 0], currentWaterLevels = [0, 1 / 2, 0],
      particles = [replicate 40 cornerParticle, [], []], containerBounds = []\<rparr>"

section \<open>Double arithmetic: rounding lemmas\<close>

lemma rne_cases:
  "rne q = \<lfloor>q\<rfloor> \<or> rne q = \<lfloor>q\<rfloor> + 1"
  by (simp add: rne_def Let_def)

lemma rne_char:
  obtains f :: int where "of_int f \<le> q" and "q < of_int f + 1" and "f = \<lfloor>q\<rfloor>"
    and "rne q = (if q - of_int f < 1 / 2 then f
                  else if 1 / 2 < q - of_int f then f + 1
                  else if even f then f else f + 1)"
proof -
  have "of_int \<lfloor>q\<rfloor> \<le> q" "q < of_int \<lfloor>q\<rfloor> + 1" by linarith+
  moreover have "rne q = (if q - of_int \<lfloor>q\<rfloor> < 1 / 2 then \<lfloor>q\<rfloor>
                  else if 1 / 2 < q - of_int \<lfloor>q\<rfloor> then \<lfloor>q\<rfloor> + 1
                  else if even \<lfloor>q\<rfloor> then \<lfloor>q\<rfloor> else \<lfloor>q\<rfloor> + 1)"
    by (simp add: rne_def Let_def)
  ultimately show ?thesis using that by blast
qed

lemma rne_upper: "of_int (rne q) - q \<le> 1 / 2"
proof -
  obtain f where "of_int f \<le> q" "q < of_int f + 1"
    "rne q = (if q - of_int f < 1 / 2 then f
                  else if 1 / 2 < q - of_int f then f + 1
                  else if even f then f else f + 1)"
    by (rule rne_char)
  then show ?thesis by (auto split: if_splits)
qed

lemma rne_lower: "q - of_int (rne q) \<le> 1 / 2"
proof -
  obtain f where "of_int f \<le> q" "q < of_int f + 1"
    "rne q = (if q - of_int f < 1 / 2 then f
                  else if 1 / 2 < q - of_int f then f + 1
                  else if even f then f else f + 1)"
    by (rule rne_char)
  then show ?thesis by (auto split: if_splits)
qed

lemma rne_of_int [simp]: "rne (of_int n) = n"
  by (simp add: rne_def)

lemma rne_mono:
  assumes "q \<le> q'"
  shows "rne q \<le> rne q'"
proof (cases "\<lfloor>q\<rfloor> = \<lfloor>q'\<rfloor>")
  case True
  then show ?thesis
    using assms by (auto simp: rne_def Let_def)
next
  case False
  then have "\<lfloor>q\<rfloor> < \<lfloor>q'\<rfloor>"
    using floor_mono [OF assms] by linarith
  moreover have "rne q \<le> \<lfloor>q\<rfloor> + 1" using rne_cases [of q] by linarith
  moreover have "\<lfloor>q'\<rfloor> \<le> rne q'" using rne_cases [of q'] by linarith
  ultimately show ?thesis by linarith
qed

lemma rne_minus: "rne (- q) = - rne q"
proof (cases "q = of_int \<lfloor>q\<rfloor>")
  case True
  have "rne (- of_int \<lfloor>q\<rfloor>) = - rne (of_int \<lfloor>q\<rfloor> :: real)"
    using rne_of_int [of "- \<lfloor>q\<rfloor>"] by simp
  then show ?thesis using True by simp
next
  case False
  moreover have "of_int \<lfloor>q\<rfloor> \<le> q" by linarith
  ultimately have lt: "of_int \<lfloor>q\<rfloor> < q" by linarith
  have ub: "q < of_int \<lfloor>q\<rfloor> + 1" by linarith
  have fm: "\<lfloor>- q\<rfloor> = - \<lfloor>q\<rfloor> - 1"
  proof (rule floor_unique)
    show "of_int (- \<lfloor>q\<rfloor> - 1) \<le> - q"
      using ub by (simp only: of_int_diff of_int_minus of_int_1)
    show "- q < of_int (- \<lfloor>q\<rfloor> - 1) + 1"
      using lt by (simp only: of_int_diff of_int_minus of_int_1)
  qed
  show ?thesis
    using lt ub by (auto simp: rne_def Let_def fm)
qed


lemma floor_log2_bounds:
  assumes "x \<noteq> 0"
  shows "2 powi \<lfloor>log 2 \<bar>x\<bar>\<rfloor> \<le> \<bar>x\<bar> \<and> \<bar>x\<bar> < 2 powi (\<lfloor>log 2 \<bar>x\<bar>\<rfloor> + 1)"
proof -
  have pos: "0 < \<bar>x\<bar>" using assms by simp
  have "2 powr real_of_int \<lfloor>log 2 \<bar>x\<bar>\<rfloor> \<le> \<bar>x\<bar> \<and>
        \<bar>x\<bar> < 2 powr (real_of_int \<lfloor>log 2 \<bar>x\<bar>\<rfloor> + 1)"
    using floor_log_eq_powr_iff [OF pos, of 2 "\<lfloor>log 2 \<bar>x\<bar>\<rfloor>"] by simp
  moreover have "2 powr real_of_int \<lfloor>log 2 \<bar>x\<bar>\<rfloor> = (2::real) powi \<lfloor>log 2 \<bar>x\<bar>\<rfloor>"
    by (rule powr_real_of_int') simp_all
  moreover have "2 powr (real_of_int \<lfloor>log 2 \<bar>x\<bar>\<rfloor> + 1) = (2::real) powi (\<lfloor>log 2 \<bar>x\<bar>\<rfloor> + 1)"
    using powr_real_of_int' [of "2::real" "\<lfloor>log 2 \<bar>x\<bar>\<rfloor> + 1"] by simp
  ultimately show ?thesis by simp
qed

lemma floor_log2_eqI:
  assumes "2 powi e \<le> \<bar>x\<bar>" and "\<bar>x\<bar> < 2 powi (e + 1)"
  shows "\<lfloor>log 2 \<bar>x\<bar>\<rfloor> = e"
proof -
  have "(0::real) < 2 powi e" by simp
  with assms(1) have pos: "0 < \<bar>x\<bar>" by linarith
  have a: "2 powr real_of_int e = (2::real) powi e"
    by (rule powr_real_of_int') simp_all
  have b: "2 powr (real_of_int e + 1) = (2::real) powi (e + 1)"
    using powr_real_of_int' [of "2::real" "e + 1"] by simp
  show ?thesis
    using floor_log_eq_powr_iff [OF pos, of 2 e] assms a b by simp
qed

lemma expo_ge: "- 1022 \<le> expo x"
  by (simp add: expo_def)

lemma expo_minus: "expo (- x) = expo x"
  by (simp add: expo_def)

lemma abs_lt_binade: "\<bar>x\<bar> < 2 powi (expo x + 1)"
proof (cases "x = 0")
  case True
  then show ?thesis by simp
next
  case False
  have "\<bar>x\<bar> < 2 powi (\<lfloor>log 2 \<bar>x\<bar>\<rfloor> + 1)"
    using floor_log2_bounds [OF False] by simp
  also have "\<dots> \<le> 2 powi (expo x + 1)"
    using False by (intro power_int_increasing) (simp_all add: expo_def)
  finally show ?thesis .
qed

lemma abs_ge_binade:
  assumes "- 1022 < expo x"
  shows "2 powi expo x \<le> \<bar>x\<bar>"
proof -
  have nz: "x \<noteq> 0" using assms by (auto simp: expo_def)
  then have "expo x = \<lfloor>log 2 \<bar>x\<bar>\<rfloor>" using assms by (simp add: expo_def max_def split: if_splits)
  then show ?thesis using floor_log2_bounds [OF nz] by simp
qed

lemma expo_eqI:
  assumes "2 powi e \<le> \<bar>x\<bar>" and "\<bar>x\<bar> < 2 powi (e + 1)" and "- 1022 \<le> e"
  shows "expo x = e"
proof -
  have "(0::real) < 2 powi e" by simp
  with assms(1) have "0 < \<bar>x\<bar>" by linarith
  then have "x \<noteq> 0" by simp
  then show ?thesis
    using floor_log2_eqI [OF assms(1,2)] assms(3) by (simp add: expo_def)
qed

lemma expo_subnormal:
  assumes "\<bar>x\<bar> < 2 powi (- 1022)"
  shows "expo x = - 1022"
proof (cases "x = 0")
  case True
  then show ?thesis by (simp add: expo_def)
next
  case False
  have "\<lfloor>log 2 \<bar>x\<bar>\<rfloor> < - 1022"
  proof (rule ccontr)
    assume "\<not> \<lfloor>log 2 \<bar>x\<bar>\<rfloor> < - 1022"
    then have "(2::real) powi (- 1022) \<le> 2 powi \<lfloor>log 2 \<bar>x\<bar>\<rfloor>"
      by (intro power_int_increasing) simp_all
    with floor_log2_bounds [OF False] assms show False by linarith
  qed
  then show ?thesis using False by (simp add: expo_def)
qed

lemma expo_mono:
  assumes "\<bar>x\<bar> \<le> \<bar>y\<bar>"
  shows "expo x \<le> expo y"
proof (rule ccontr)
  assume "\<not> expo x \<le> expo y"
  then have lt: "expo y < expo x" by simp
  then have "- 1022 < expo x" using expo_ge [of y] by linarith
  then have "2 powi expo x \<le> \<bar>x\<bar>" by (rule abs_ge_binade)
  moreover have "(2::real) powi (expo y + 1) \<le> 2 powi expo x"
    using lt by (intro power_int_increasing) simp_all
  ultimately show False using abs_lt_binade [of y] assms by linarith
qed

lemma ulp_pos: "0 < ulp x"
  by (simp add: ulp_def)

lemma ulp_minus: "ulp (- x) = ulp x"
  by (simp add: ulp_def expo_minus)

lemma fl_minus: "fl (- x) = - fl x"
  by (simp add: fl_def ulp_minus rne_minus)

lemma rne_0 [simp]: "rne 0 = 0"
  using rne_of_int [of 0] by simp

lemma fl_0 [simp]: "fl 0 = 0"
  by (simp add: fl_def)

lemma fl_error: "\<bar>fl x - x\<bar> \<le> ulp x / 2"
proof -
  let ?q = "x / ulp x"
  have g: "0 < ulp x" by (rule ulp_pos)
  have "\<bar>of_int (rne ?q) - ?q\<bar> \<le> 1 / 2"
    using rne_upper [of ?q] rne_lower [of ?q] by linarith
  then have "\<bar>of_int (rne ?q) - ?q\<bar> * ulp x \<le> 1 / 2 * ulp x"
    using g by (intro mult_right_mono) simp_all
  moreover have "\<bar>of_int (rne ?q) - ?q\<bar> * ulp x = \<bar>fl x - x\<bar>"
  proof -
    have "\<bar>of_int (rne ?q) - ?q\<bar> * ulp x = \<bar>(of_int (rne ?q) - ?q) * ulp x\<bar>"
      using g by (simp add: abs_mult)
    also have "(of_int (rne ?q) - ?q) * ulp x = fl x - x"
      using g by (simp add: fl_def left_diff_distrib)
    finally show ?thesis .
  qed
  ultimately show ?thesis by simp
qed


lemma ulp_le: "ulp x \<le> \<bar>x\<bar> / 2 ^ 52 + 2 powi (- 1074)"
proof (cases "- 1022 < expo x")
  case True
  have "ulp x = 2 powi expo x / 2 ^ 52"
    by (simp add: ulp_def power_int_diff)
  also have "\<dots> \<le> \<bar>x\<bar> / 2 ^ 52"
    using abs_ge_binade [OF True] by (simp add: divide_right_mono)
  also have "\<dots> \<le> \<bar>x\<bar> / 2 ^ 52 + 2 powi (- 1074)"
    by simp
  finally show ?thesis .
next
  case False
  then have "expo x = - 1022" using expo_ge [of x] by linarith
  then have "ulp x = 2 powi (- 1074)" by (simp add: ulp_def)
  then show ?thesis by simp
qed

lemma fl_rel_error: "\<bar>fl x - x\<bar> \<le> \<bar>x\<bar> / 2 ^ 53 + 2 powi (- 1075)"
proof -
  have "\<bar>fl x - x\<bar> \<le> ulp x / 2" by (rule fl_error)
  also have "\<dots> \<le> (\<bar>x\<bar> / 2 ^ 52 + 2 powi (- 1074)) / 2"
    using ulp_le [of x] by simp
  also have "\<dots> = \<bar>x\<bar> / 2 ^ 53 + 2 powi (- 1074) / 2"
    by (simp add: add_divide_distrib)
  also have "(2::real) powi (- 1074) / 2 = 2 powi (- 1075)"
    using power_int_diff [of "2::real" "- 1074" 1] by simp
  finally show ?thesis .
qed

lemma fl_exactI:
  assumes "x / ulp x = of_int n"
  shows "fl x = x"
proof -
  have "fl x = of_int n * ulp x"
    by (simp add: fl_def assms)
  also have "\<dots> = x / ulp x * ulp x" by (simp only: assms)
  also have "\<dots> = x" using ulp_pos [of x] by simp
  finally show ?thesis .
qed

lemma fl_nonneg:
  assumes "0 \<le> x"
  shows "0 \<le> fl x"
proof -
  have "0 \<le> x / ulp x" using assms ulp_pos [of x] by simp
  then have "rne 0 \<le> rne (x / ulp x)" by (rule rne_mono)
  then have "0 \<le> rne (x / ulp x)" by simp
  then show ?thesis using ulp_pos [of x] by (simp add: fl_def)
qed

lemma fl_le_binade:
  assumes "0 \<le> x"
  shows "fl x \<le> 2 powi (expo x + 1)"
proof -
  have g: "0 < ulp x" by (rule ulp_pos)
  have top: "(2::real) powi (expo x + 1) = 2 ^ 53 * ulp x"
  proof -
    have "(2::real) powi (expo x + 1) = 2 powi (53 + (expo x - 52))" by (simp add: algebra_simps)
    also have "\<dots> = 2 powi 53 * 2 powi (expo x - 52)"
      by (rule power_int_add) simp
    finally show ?thesis by (simp add: ulp_def)
  qed
  have "x < 2 ^ 53 * ulp x" using abs_lt_binade [of x] assms top by simp
  then have "x / ulp x \<le> of_int (2 ^ 53)"
    using g by (simp add: pos_divide_le_eq)
  then have "rne (x / ulp x) \<le> rne (of_int (2 ^ 53))" by (rule rne_mono)
  then have "rne (x / ulp x) \<le> 2 ^ 53" by (simp only: rne_of_int)
  then have "(of_int (rne (x / ulp x)) :: real) \<le> of_int (2 ^ 53)" by (simp only: of_int_le_iff)
  then have "of_int (rne (x / ulp x)) * ulp x \<le> of_int (2 ^ 53) * ulp x"
    using g by (intro mult_right_mono) simp_all
  then show ?thesis by (simp add: fl_def top)
qed

lemma fl_ge_binade:
  assumes "0 \<le> x" and "- 1022 < expo x"
  shows "2 powi expo x \<le> fl x"
proof -
  have g: "0 < ulp x" by (rule ulp_pos)
  have bot: "(2::real) powi expo x = 2 ^ 52 * ulp x"
  proof -
    have "(2::real) powi expo x = 2 powi (52 + (expo x - 52))" by (simp add: algebra_simps)
    also have "\<dots> = 2 powi 52 * 2 powi (expo x - 52)"
      by (rule power_int_add) simp
    finally show ?thesis by (simp add: ulp_def)
  qed
  have "2 ^ 52 * ulp x \<le> x" using abs_ge_binade [OF assms(2)] assms(1) bot by simp
  then have "of_int (2 ^ 52) \<le> x / ulp x"
    using g by (simp add: pos_le_divide_eq)
  then have "rne (of_int (2 ^ 52)) \<le> rne (x / ulp x)" by (rule rne_mono)
  then have "2 ^ 52 \<le> rne (x / ulp x)" by (simp only: rne_of_int)
  then have "(of_int (2 ^ 52) :: real) \<le> of_int (rne (x / ulp x))" by (simp only: of_int_le_iff)
  then have "of_int (2 ^ 52) * ulp x \<le> of_int (rne (x / ulp x)) * ulp x"
    using g by (intro mult_right_mono) simp_all
  then show ?thesis by (simp add: fl_def bot)
qed

lemma fl_mono_nonneg:
  assumes "0 \<le> x" and "x \<le> y"
  shows "fl x \<le> fl y"
proof -
  have y0: "0 \<le> y" using assms by simp
  have "expo x \<le> expo y" using assms by (intro expo_mono) simp
  then consider "expo x = expo y" | "expo x < expo y" by linarith
  then show ?thesis
  proof cases
    case 1
    then have u: "ulp x = ulp y" by (simp add: ulp_def)
    have g: "0 < ulp y" by (rule ulp_pos)
    have "x / ulp y \<le> y / ulp y" using assms(2) g by (simp add: divide_right_mono)
    then have "rne (x / ulp y) \<le> rne (y / ulp y)" by (rule rne_mono)
    then have "(of_int (rne (x / ulp y)) :: real) \<le> of_int (rne (y / ulp y))" by simp
    then have "of_int (rne (x / ulp y)) * ulp y \<le> of_int (rne (y / ulp y)) * ulp y"
      using g by (intro mult_right_mono) simp_all
    then show ?thesis by (simp add: fl_def u)
  next
    case 2
    then have n: "- 1022 < expo y" using expo_ge [of x] by linarith
    have "fl x \<le> 2 powi (expo x + 1)" using assms(1) by (rule fl_le_binade)
    also have "\<dots> \<le> 2 powi expo y"
      using 2 by (intro power_int_increasing) simp_all
    also have "\<dots> \<le> fl y" using y0 n by (rule fl_ge_binade)
    finally show ?thesis .
  qed
qed

lemma fl_mono:
  assumes "x \<le> y"
  shows "fl x \<le> fl y"
proof (cases "0 \<le> x")
  case True
  then show ?thesis using assms by (rule fl_mono_nonneg)
next
  case xneg: False
  show ?thesis
  proof (cases "0 \<le> y")
    case True
    have "0 \<le> fl (- x)" using xneg by (intro fl_nonneg) simp
    then have "fl x \<le> 0" by (simp add: fl_minus)
    also have "0 \<le> fl y" using True by (rule fl_nonneg)
    finally show ?thesis .
  next
    case False
    then have "fl (- y) \<le> fl (- x)" using assms by (intro fl_mono_nonneg) simp_all
    then show ?thesis by (simp add: fl_minus)
  qed
qed


lemma expo_eqI':
  assumes "\<bar>y\<bar> < 2 powi (e + 1)" and "e = - 1022 \<or> 2 powi e \<le> \<bar>y\<bar>" and "- 1022 \<le> e"
  shows "expo y = e"
proof (cases "2 powi e \<le> \<bar>y\<bar>")
  case True
  then show ?thesis using assms(1,3) by (rule expo_eqI)
next
  case False
  with assms(2) have e: "e = - 1022" by blast
  with False have "\<bar>y\<bar> < 2 powi (- 1022)" by simp
  then show ?thesis using e by (simp add: expo_subnormal)
qed

lemma fl_idem_nonneg:
  assumes "0 \<le> x"
  shows "fl (fl x) = fl x"
proof -
  define y where "y = fl x"
  define n where "n = rne (x / ulp x)"
  have g: "0 < ulp x" by (rule ulp_pos)
  have yn: "y = of_int n * ulp x" by (simp add: y_def n_def fl_def)
  have y0: "0 \<le> y" unfolding y_def using assms by (rule fl_nonneg)
  have yle: "y \<le> 2 powi (expo x + 1)" unfolding y_def using assms by (rule fl_le_binade)
  show ?thesis
  proof (cases "y = 2 powi (expo x + 1)")
    case True
    have "(2::real) powi (expo x + 1) < 2 powi (expo x + 1 + 1)"
      by (intro power_int_strict_increasing) simp_all
    then have "expo y = expo x + 1"
      using True y0 expo_ge [of x] by (intro expo_eqI) simp_all
    then have u: "ulp y = 2 powi (expo x + 1 - 52)" by (simp add: ulp_def)
    have "2 powi (expo x + 1) = (2::real) powi (52 + (expo x + 1 - 52))" by (simp add: algebra_simps)
    also have "\<dots> = 2 powi 52 * 2 powi (expo x + 1 - 52)"
      by (rule power_int_add) simp
    finally have "y = 2 ^ 52 * ulp y" using True u by simp
    then have "y / ulp y = 2 ^ 52" using ulp_pos [of y] by (simp add: field_simps)
    then have "y / ulp y = of_int (2 ^ 52)" by simp
    then have "fl y = y" by (rule fl_exactI)
    then show ?thesis by (simp add: y_def)
  next
    case False
    with yle have lt: "\<bar>y\<bar> < 2 powi (expo x + 1)" using y0 by simp
    have "expo x = - 1022 \<or> 2 powi expo x \<le> \<bar>y\<bar>"
    proof (cases "- 1022 < expo x")
      case True
      then have "2 powi expo x \<le> y" unfolding y_def using assms by (intro fl_ge_binade)
      then show ?thesis using y0 by simp
    next
      case False
      then show ?thesis using expo_ge [of x] by linarith
    qed
    with lt have "expo y = expo x" using expo_ge [of x] by (rule expo_eqI')
    then have "ulp y = ulp x" by (simp add: ulp_def)
    then have "y / ulp y = of_int n" using yn g by simp
    then have "fl y = y" by (rule fl_exactI)
    then show ?thesis by (simp add: y_def)
  qed
qed

lemma fl_idem [simp]: "fl (fl x) = fl x"
proof (cases "0 \<le> x")
  case True
  then show ?thesis by (rule fl_idem_nonneg)
next
  case False
  then have "fl (fl (- x)) = fl (- x)" by (intro fl_idem_nonneg) simp
  then show ?thesis by (simp add: fl_minus)
qed

lemma fl_eval:
  assumes "2 powi e \<le> \<bar>x\<bar>" and "\<bar>x\<bar> < 2 powi (e + 1)" and "- 1022 \<le> e"
  shows "fl x = of_int (rne (x / 2 powi (e - 52))) * 2 powi (e - 52)"
  using expo_eqI [OF assms] by (simp add: fl_def ulp_def)

lemma fl_onGrid: "onGrid (fl x)"
proof -
  have "0 \<le> expo x + 1022" using expo_ge [of x] by simp
  have "(2::real) powi (expo x - 52) = 2 powi ((expo x + 1022) + (- 1074))" by (simp add: algebra_simps)
  also have "\<dots> = 2 powi (expo x + 1022) * 2 powi (- 1074)"
    by (rule power_int_add) simp
  also have "(2::real) powi (expo x + 1022) = 2 ^ nat (expo x + 1022)"
    using \<open>0 \<le> expo x + 1022\<close> by (rule power_int_nonneg_exp)
  finally have "ulp x = of_int (2 ^ nat (expo x + 1022)) * 2 powi (- 1074)"
    by (simp add: ulp_def)
  then have "fl x = of_int (rne (x / ulp x) * 2 ^ nat (expo x + 1022)) * 2 powi (- 1074)"
    by (simp add: fl_def)
  then show ?thesis unfolding onGrid_def by blast
qed

lemma onGrid_diff:
  assumes "onGrid a" and "onGrid b"
  shows "onGrid (a - b)"
proof -
  from assms obtain m n :: int where "a = of_int m * 2 powi (- 1074)" "b = of_int n * 2 powi (- 1074)"
    unfolding onGrid_def by blast
  then have "a - b = of_int (m - n) * 2 powi (- 1074)"
    by (simp add: left_diff_distrib)
  then show ?thesis unfolding onGrid_def by blast
qed

lemma onGrid_pos_ge:
  assumes "onGrid x" and "0 < x"
  shows "2 powi (- 1074) \<le> x"
proof -
  from assms(1) obtain n :: int where n: "x = of_int n * 2 powi (- 1074)"
    unfolding onGrid_def by blast
  have p: "(0::real) < 2 powi (- 1074)" by simp
  have "0 < (of_int n :: real)"
    using assms(2) p unfolding n by (simp add: zero_less_mult_iff)
  then have "1 \<le> n" by simp
  then have "(1::real) \<le> of_int n" by simp
  then have "1 * 2 powi (- 1074) \<le> of_int n * (2::real) powi (- 1074)"
    using p by (intro mult_right_mono) simp_all
  then show ?thesis by (simp add: n)
qed

lemma onGrid_small_exact:
  assumes "onGrid x" and "\<bar>x\<bar> < 2 powi (- 1022)"
  shows "fl x = x"
proof -
  define g :: real where "g = 2 powi (- 1074)"
  have g: "0 < g" by (simp add: g_def)
  from assms(1) obtain n :: int where n: "x = of_int n * g"
    unfolding onGrid_def g_def by blast
  have "expo x = - 1022" using assms(2) by (rule expo_subnormal)
  then have "ulp x = g" by (simp add: ulp_def g_def)
  then have "x / ulp x = of_int n" using g by (simp add: n)
  then show ?thesis by (rule fl_exactI)
qed

lemma rne_numeral [simp]: "rne (numeral k) = numeral k"
  using rne_of_int [of "numeral k"] by simp

lemma fl_4: "fl 4 = 4"
proof -
  have "fl 4 = of_int (rne (4 / 2 powi (2 - 52))) * 2 powi (2 - 52)"
    by (rule fl_eval) simp_all
  then show ?thesis by simp
qed

lemma fl_8: "fl 8 = 8"
proof -
  have "fl 8 = of_int (rne (8 / 2 powi (3 - 52))) * 2 powi (3 - 52)"
    by (rule fl_eval) simp_all
  then show ?thesis by simp
qed

lemma fl_2: "fl 2 = 2"
proof -
  have "fl 2 = of_int (rne (2 / 2 powi (1 - 52))) * 2 powi (1 - 52)"
    by (rule fl_eval) simp_all
  then show ?thesis by simp
qed

lemma fl_6: "fl 6 = 6"
proof -
  have "fl 6 = of_int (rne (6 / 2 powi (2 - 52))) * 2 powi (2 - 52)"
    by (rule fl_eval) simp_all
  then show ?thesis by simp
qed

lemma fl_1: "fl 1 = 1"
proof -
  have "fl 1 = of_int (rne (1 / 2 powi (0 - 52))) * 2 powi (0 - 52)"
    by (rule fl_eval) simp_all
  then show ?thesis by simp
qed

lemma fl_half: "fl (1 / 2) = 1 / 2"
proof -
  have "fl (1 / 2) = of_int (rne ((1 / 2) / 2 powi (- 1 - 52))) * 2 powi (- 1 - 52)"
    by (rule fl_eval) simp_all
  then show ?thesis by simp
qed

lemma fl_3_2: "fl (3 / 2) = 3 / 2"
proof -
  have "fl (3 / 2) = of_int (rne ((3 / 2) / 2 powi (0 - 52))) * 2 powi (0 - 52)"
    by (rule fl_eval) simp_all
  then show ?thesis by simp
qed

lemma fl_below_4: "fl (4 - 1 / 2 ^ 51) = 4 - 1 / 2 ^ 51"
proof -
  have "fl (4 - 1 / 2 ^ 51) =
        of_int (rne ((4 - 1 / 2 ^ 51) / 2 powi (1 - 52))) * 2 powi (1 - 52)"
    by (rule fl_eval) simp_all
  then show ?thesis by simp
qed

lemma fl_below_8: "fl (8 - 1 / 2 ^ 51) = 8"
proof -
  have "fl (8 - 1 / 2 ^ 51) =
        of_int (rne ((8 - 1 / 2 ^ 51) / 2 powi (2 - 52))) * 2 powi (2 - 52)"
    by (rule fl_eval) simp_all
  moreover have "rne (18014398509481983 / 2) = 9007199254740992"
    by (simp add: rne_def Let_def)
  ultimately show ?thesis by simp
qed

lemma fl_005: "fl (5 / 100) = 3602879701896397 / 2 ^ 56"
proof -
  have "fl (5 / 100) = of_int (rne ((5 / 100) / 2 powi (- 5 - 52))) * 2 powi (- 5 - 52)"
    by (rule fl_eval) simp_all
  moreover have "rne (36028797018963968 / 5) = 7205759403792794"
    by (simp add: rne_def Let_def)
  ultimately show ?thesis by simp
qed

lemma double_below_1:
  assumes "fl u = u" and "u < 1"
  shows "u \<le> 1 - 1 / 2 ^ 53"
proof (rule ccontr)
  assume "\<not> u \<le> 1 - 1 / 2 ^ 53"
  then have gt: "1 - 1 / 2 ^ 53 < u" by simp
  have "expo u = - 1"
    using gt assms(2) by (intro expo_eqI) simp_all
  then have ul: "ulp u = 1 / 2 ^ 53" by (simp add: ulp_def)
  define n where "n = rne (u / ulp u)"
  have "of_int n * ulp u = fl u" by (simp add: fl_def n_def)
  then have un: "of_int n = u * 2 ^ 53" by (simp add: ul assms(1))
  have "of_int n < (9007199254740992 :: real)" using assms(2) by (simp add: un)
  then have "n < 9007199254740992" by linarith
  then have "n \<le> 9007199254740991" by simp
  then have "(of_int n :: real) \<le> 9007199254740991" by linarith
  with gt show False by (simp add: un)
qed

section \<open>Fill smoothing in double arithmetic\<close>

lemma fl_literal_005: "fl 0.05 = 3602879701896397 / 2 ^ 56"
proof -
  have "fl 0.05 = fl (5 / 100)" by simp
  then show ?thesis by (simp only: fl_005)
qed

lemma eta_small: "(2::real) powi (- 1075) \<le> 1 / 2 ^ 60"
proof -
  have "(2::real) powi (- 1075) \<le> 2 powi (- 60)"
    by (intro power_int_increasing) simp_all
  also have "(2::real) powi (- 60) = 1 / 2 ^ 60"
    by simp
  finally show ?thesis .
qed

lemma grid_double_eta: "(2::real) powi (- 1074) = 2 * 2 powi (- 1075)"
proof -
  have "(2::real) powi (1 + (- 1075)) = 2 powi 1 * 2 powi (- 1075)"
    by (rule power_int_add) simp
  then show ?thesis by simp
qed

lemma fillIter_end: "fillIter (Suc n) target current = fillStep target (fillIter n target current)"
  by (induction n arbitrary: current) simp_all

text \<open>
  One frame, for doubles \<open>0 \<le> c \<le> T \<le> 1\<close>: the fill does not decrease and does not
  pass the target, and the distance to the target shrinks by the factor \<open>0.95\<close> up
  to the rounding of the three operations.
\<close>

lemma fillStep_bounds:
  assumes "0 \<le> c" and "c \<le> T" and "T \<le> 1" and "fl T = T" and "fl c = c"
  shows "c \<le> fillStep T c \<and> fillStep T c \<le> T \<and> fl (fillStep T c) = fillStep T c \<and>
         T - fillStep T c \<le> 19 / 20 * (T - c) + 3 / 2 ^ 54 \<and>
         9499 / 10000 * (T - c) - 1 / 2 ^ 52 \<le> T - fillStep T c"
proof -
  define eta :: real where "eta = 2 powi (- 1075)"
  define e where "e = T - c"
  define a where "a = fl e"
  define b where "b = fl (a * (3602879701896397 / 2 ^ 56))"
  define s where "s = c + b"
  define c' where "c' = fl s"
  have step: "fillStep T c = c'"
    by (simp only: fillStep_def fl_literal_005 c'_def s_def b_def a_def e_def)
  have eta0: "0 < eta" by (simp add: eta_def)
  have eta1: "eta \<le> 1 / 2 ^ 60" unfolding eta_def by (rule eta_small)
  have e0: "0 \<le> e" using assms(2) by (simp add: e_def)
  have e1: "e \<le> 1" using assms(1,3) by (simp add: e_def)
  have a0: "0 \<le> a" unfolding a_def using e0 by (rule fl_nonneg)
  have ak0: "0 \<le> a * (3602879701896397 / 2 ^ 56)" using a0 by simp
  have b0: "0 \<le> b" unfolding b_def using ak0 by (rule fl_nonneg)
  have A: "\<bar>a - e\<bar> \<le> e / 2 ^ 53 + eta"
    using fl_rel_error [of e] e0 by (simp only: a_def eta_def abs_of_nonneg)
  have B: "\<bar>b - a * (3602879701896397 / 2 ^ 56)\<bar> \<le> a * (3602879701896397 / 2 ^ 56) / 2 ^ 53 + eta"
    using fl_rel_error [of "a * (3602879701896397 / 2 ^ 56)"] ak0
    by (simp only: b_def eta_def abs_of_nonneg)
  have grid: "e = 0 \<or> 2 * eta \<le> e"
  proof (cases "e = 0")
    case True
    then show ?thesis by simp
  next
    case False
    have "onGrid T" using fl_onGrid [of T] by (simp only: assms(4))
    moreover have "onGrid c" using fl_onGrid [of c] by (simp only: assms(5))
    ultimately have "onGrid e" unfolding e_def by (rule onGrid_diff)
    moreover have "0 < e" using False e0 by simp
    ultimately have "2 powi (- 1074) \<le> e" by (rule onGrid_pos_ge)
    then have "2 * eta \<le> e" by (simp only: grid_double_eta eta_def)
    then show ?thesis by blast
  qed
  have be: "b \<le> e"
  proof (cases "e = 0")
    case True
    then have "a = 0" by (simp add: a_def)
    then have "b = 0" by (simp add: b_def)
    then show ?thesis using True by simp
  next
    case False
    with grid have "2 * eta \<le> e" by simp
    then show ?thesis using A B e0 a0 by (simp add: abs_le_iff; linarith)
  qed
  have s0: "0 \<le> s" using assms(1) b0 by (simp add: s_def)
  have sT: "s \<le> T" using be by (simp add: s_def e_def)
  have s1: "s \<le> 1" using sT assms(3) by simp
  have C: "\<bar>c' - s\<bar> \<le> s / 2 ^ 53 + eta"
    using fl_rel_error [of s] s0 by (simp only: c'_def eta_def abs_of_nonneg)
  have "fl c \<le> fl s" using b0 by (intro fl_mono) (simp add: s_def)
  then have m1: "c \<le> c'" by (simp only: assms(5) c'_def)
  have "fl s \<le> fl T" using sT by (rule fl_mono)
  then have m2: "c' \<le> T" by (simp only: assms(4) c'_def)
  have m3: "fl c' = c'" by (simp add: c'_def)
  have Te: "T - c' = e - b - (c' - s)" by (simp add: e_def s_def)
  have up: "T - c' \<le> 19 / 20 * e + 3 / 2 ^ 54"
    using A B C e0 e1 a0 b0 s0 s1 eta0 eta1 Te by (simp add: abs_le_iff; linarith)
  have lo: "9499 / 10000 * e - 1 / 2 ^ 52 \<le> T - c'"
    using A B C e0 e1 a0 b0 s0 s1 eta0 eta1 Te by (simp add: abs_le_iff; linarith)
  show ?thesis
    using m1 m2 m3 up lo by (simp only: step e_def)
qed


lemma fl_literal_07: "fl 0.7 = 3152519739159347 / 2 ^ 52"
proof -
  have "fl (7 / 10) = of_int (rne ((7 / 10) / 2 powi (- 1 - 52))) * 2 powi (- 1 - 52)"
    by (rule fl_eval) simp_all
  moreover have "rne (31525197391593472 / 5) = 6305039478318694"
    by (simp add: rne_def Let_def)
  ultimately have "fl (7 / 10) = 3152519739159347 / 2 ^ 52" by simp
  moreover have "fl 0.7 = fl (7 / 10)" by simp
  ultimately show ?thesis by (simp only:)
qed

text \<open>
  The first frame towards the liquid's target \<open>0.7\<close>: the code computes the double
  \<open>0.034999999999999996\<close>, which is below the exact \<open>0.7 * 0.05\<close>.
\<close>

lemma fillStep_first_frame:
  "fillStep (fl 0.7) 0 = 5044031582654955 / 2 ^ 57 \<and> fillStep (fl 0.7) 0 < 7 / 200"
proof -
  define t :: real where "t = 3152519739159347 / 2 ^ 52"
  define k :: real where "k = 3602879701896397 / 2 ^ 56"
  define r :: real where "r = 5044031582654955 / 2 ^ 57"
  have ft: "fl t = t" using fl_idem [of "0.7"] by (simp only: fl_literal_07 t_def)
  have "fl (t * k) = of_int (rne ((t * k) / 2 powi (- 5 - 52))) * 2 powi (- 5 - 52)"
    by (rule fl_eval) (simp_all add: t_def k_def)
  moreover have "rne (11358149378044935347338468172759 / 2251799813685248) = 5044031582654955"
    by (simp add: rne_def Let_def)
  ultimately have p: "fl (t * k) = r" by (simp add: t_def k_def r_def)
  have "fl r = r" using fl_idem [of "t * k"] by (simp only: p)
  have "fillStep t 0 = fl (0 + fl (fl (t - 0) * k))"
    by (simp only: fillStep_def fl_literal_005 k_def)
  also have "\<dots> = fl (fl (fl t * k))" by simp
  also have "\<dots> = r" by (simp only: ft p \<open>fl r = r\<close>)
  finally have "fillStep t 0 = r" .
  moreover have "r < 7 / 200" by (simp add: r_def)
  ultimately show ?thesis by (simp only: fl_literal_07 t_def r_def)
qed


lemma fill_invariant:
  assumes "0 \<le> T" and "T \<le> 1" and "fl T = T"
  shows "0 \<le> fillIter n T 0 \<and> fillIter n T 0 \<le> T \<and> fl (fillIter n T 0) = fillIter n T 0 \<and>
         T - fillIter n T 0 \<le> T * (19 / 20) ^ n + 1 / 2 ^ 48 \<and>
         T * (9499 / 10000) ^ n - real n / 2 ^ 52 \<le> T - fillIter n T 0"
proof (induction n)
  case 0
  show ?case using assms by simp
next
  case (Suc n)
  define c where "c = fillIter n T 0"
  define P where "P = T * (19 / 20) ^ n"
  define Q where "Q = T * (9499 / 10000) ^ n"
  have ih: "0 \<le> c" "c \<le> T" "fl c = c" "T - c \<le> P + 1 / 2 ^ 48" "Q - real n / 2 ^ 52 \<le> T - c"
    using Suc.IH by (simp_all add: c_def P_def Q_def)
  have st: "c \<le> fillStep T c" "fillStep T c \<le> T" "fl (fillStep T c) = fillStep T c"
    "T - fillStep T c \<le> 19 / 20 * (T - c) + 3 / 2 ^ 54"
    "9499 / 10000 * (T - c) - 1 / 2 ^ 52 \<le> T - fillStep T c"
    using fillStep_bounds [OF ih(1,2) assms(2,3) ih(3)] by simp_all
  have P': "T * (19 / 20) ^ Suc n = 19 / 20 * P" by (simp add: P_def)
  have Q': "T * (9499 / 10000) ^ Suc n = 9499 / 10000 * Q" by (simp add: Q_def)
  have n0: "0 \<le> real n" by simp
  have rs: "real (Suc n) = real n + 1" by simp
  have u: "T - fillStep T c \<le> 19 / 20 * P + 1 / 2 ^ 48"
  proof -
    have "19 / 20 * (T - c) \<le> 19 / 20 * (P + 1 / 2 ^ 48)"
      using ih(4) by (intro mult_left_mono) simp_all
    moreover have "19 / 20 * (P + 1 / 2 ^ 48) + 3 / 2 ^ 54 \<le> 19 / 20 * P + 1 / (2 ^ 48 :: real)"
      by (simp add: algebra_simps)
    ultimately show ?thesis using st(4) by linarith
  qed
  have l: "9499 / 10000 * Q - (real n + 1) / 2 ^ 52 \<le> T - fillStep T c"
  proof -
    define m where "m = real n / 2 ^ 52"
    have m0: "0 \<le> m" by (simp add: m_def)
    have "9499 / 10000 * (Q - m) \<le> 9499 / 10000 * (T - c)"
      using ih(5) unfolding m_def by (intro mult_left_mono) simp_all
    moreover have "9499 / 10000 * (Q - m) = 9499 / 10000 * Q - 9499 / 10000 * m"
      by (simp add: right_diff_distrib)
    ultimately have "9499 / 10000 * Q - m \<le> 9499 / 10000 * (T - c)"
      using m0 by linarith
    moreover have "(real n + 1) / 2 ^ 52 = m + 1 / 2 ^ 52"
      by (simp add: m_def add_divide_distrib)
    ultimately show ?thesis using st(5) by linarith
  qed
  have "fillIter (Suc n) T 0 = fillStep T c" by (simp only: fillIter_end c_def)
  then show ?case
    using st(1,2,3) ih(1) u l by (simp only: P' Q' rs) simp
qed


lemma pow_19_20_60: "(19 / 20 :: real) ^ 60 + 1 / 2 ^ 48 < 1 / 20"
  by (simp add: power_divide)

text \<open>
  C2 (as stated, refuted). With the target \<open>0.7\<close> that the program uses for a liquid
  (the double nearest to it), 60 frames from \<open>currentFill = 0\<close> leave a distance to the
  target that is neither below \<open>0.05 ^ 60\<close> nor within \<open>0.01\<close>.
\<close>

theorem C2_fill_counterexample:
  "0 \<le> fl 0.7 \<and> 1 / 10 \<le> fl 0.7 \<and> fl 0.7 \<le> 1 \<and>
   \<not> \<bar>fillIter 60 (fl 0.7) 0 - fl 0.7\<bar> < 0.05 ^ 60 \<and>
   \<not> \<bar>fillIter 60 (fl 0.7) 0 - fl 0.7\<bar> \<le> 1 / 100"
proof -
  define t :: real where "t = 3152519739159347 / 2 ^ 52"
  have t: "fl 0.7 = t" by (simp only: fl_literal_07 t_def)
  have t0: "0 \<le> t" and t1: "t \<le> 1" and t2: "1 / 10 \<le> t" by (simp_all add: t_def)
  have ft: "fl t = t" using fl_idem [of "0.7"] by (simp only: t)
  have inv: "fillIter 60 t 0 \<le> t"
    "t * (9499 / 10000) ^ 60 - real 60 / 2 ^ 52 \<le> t - fillIter 60 t 0"
    using fill_invariant [OF t0 t1 ft, of 60] by blast+
  have big: "1 / 100 < t * (9499 / 10000) ^ 60 - real 60 / 2 ^ 52"
    by (simp add: t_def power_divide)
  have small: "(0.05 :: real) ^ 60 \<le> 1 / 100"
    by (simp add: power_divide)
  have d: "\<bar>fillIter 60 t 0 - t\<bar> = t - fillIter 60 t 0" using inv(1) by simp
  have "1 / 100 < \<bar>fillIter 60 t 0 - t\<bar>" using inv(2) big by (simp only: d; linarith)
  then have "\<not> \<bar>fillIter 60 t 0 - t\<bar> < 0.05 ^ 60" "\<not> \<bar>fillIter 60 t 0 - t\<bar> \<le> 1 / 100"
    using small by linarith+
  then show ?thesis using t0 t1 t2 by (simp only: t; blast)
qed

text \<open>
  C2 (amended). For a target \<open>T\<close> in \<open>[0,1]\<close> (a double) and \<open>currentFill = 0\<close> at the
  start, the sequence of fill values never decreases, after \<open>N\<close> frames the distance to
  the target is at most \<open>T * 0.95 ^ N + 2 ^ -48\<close>, and after 60 frames it is below
  \<open>0.05\<close>.
\<close>

theorem C2_fill_convergence:
  assumes "0 \<le> T" and "T \<le> 1" and "fl T = T"
  shows "fillIter N T 0 \<le> fillIter (Suc N) T 0 \<and>
         \<bar>fillIter N T 0 - T\<bar> \<le> T * 0.95 ^ N + 1 / 2 ^ 48 \<and>
         \<bar>fillIter 60 T 0 - T\<bar> < 0.05"
proof -
  have inv: "0 \<le> fillIter n T 0" "fillIter n T 0 \<le> T" "fl (fillIter n T 0) = fillIter n T 0"
    "T - fillIter n T 0 \<le> T * (19 / 20) ^ n + 1 / 2 ^ 48" for n
    using fill_invariant [OF assms, of n] by blast+
  have "fillIter N T 0 \<le> fillStep T (fillIter N T 0)"
    using fillStep_bounds [OF inv(1,2) assms(2,3) inv(3), of N] by blast
  then have mono: "fillIter N T 0 \<le> fillIter (Suc N) T 0"
    by (simp only: fillIter_end)
  have d: "\<bar>fillIter n T 0 - T\<bar> = T - fillIter n T 0" for n
    using inv(2) [of n] by simp
  have e: "\<bar>fillIter N T 0 - T\<bar> \<le> T * 0.95 ^ N + 1 / 2 ^ 48"
    using inv(4) [of N] by (simp add: d)
  have "T * (19 / 20) ^ 60 \<le> 1 * (19 / 20) ^ 60"
    using assms(2) by (intro mult_right_mono) simp_all
  then have "T * (19 / 20) ^ 60 + 1 / 2 ^ 48 < 1 / 20"
    using pow_19_20_60 by linarith
  then have "T - fillIter 60 T 0 < 1 / 20"
    using inv(4) [of 60] by linarith
  then have s: "\<bar>fillIter 60 T 0 - T\<bar> < 0.05"
    by (simp add: d)
  from mono e s show ?thesis by blast
qed

theorem C2_fill_convergence_witness:
  "0 \<le> fl 0.7 \<and> fl 0.7 \<le> 1 \<and> fl (fl 0.7) = fl 0.7 \<and>
   fillIter 3 (fl 0.7) 0 \<le> fillIter (Suc 3) (fl 0.7) 0 \<and>
   \<bar>fillIter 3 (fl 0.7) 0 - fl 0.7\<bar> \<le> fl 0.7 * 0.95 ^ 3 + 1 / 2 ^ 48 \<and>
   \<bar>fillIter 60 (fl 0.7) 0 - fl 0.7\<bar> < 0.05"
proof -
  have t0: "0 \<le> fl 0.7" and t1: "fl 0.7 \<le> 1"
    by (simp_all add: fl_literal_07)
  have ft: "fl (fl 0.7) = fl 0.7" by (rule fl_idem)
  from C2_fill_convergence [OF t0 t1 ft, of 3] t0 t1 ft show ?thesis by blast
qed

section \<open>Hit test: the scenario\<close>

text \<open>
  C3 (as stated, refuted). In the scenario a click at \<open>(10,170)\<close> selects no vessel:
  the hit box of the first vessel starts at \<open>x = 40\<close>.
\<close>

theorem C3_hit_test_counterexample:
  "handleClick (Some (0, 0)) 10 170 (scenarioBounds 1 2 3) = [] \<and>
   handleClick (Some (0, 0)) 10 170 (scenarioBounds 1 2 3) \<noteq> [1]"
  by (simp add: handleClick_def scenarioBounds_def inHitbox_def)

text \<open>
  C3 (amended). In the scenario a click at \<open>(120,170)\<close> selects the first vessel only,
  a click at \<open>(40,170)\<close>, 10 pixels left of the first vessel's left edge, still selects
  the first vessel, a click at \<open>(10,170)\<close> selects no vessel, and a click at
  \<open>(700,170)\<close> selects no vessel.
\<close>

theorem C3_hit_test_scenario:
  "handleClick (Some (0, 0)) 120 170 (scenarioBounds i1 i2 i3) = [i1] \<and>
   handleClick (Some (0, 0)) 40 170 (scenarioBounds i1 i2 i3) = [i1] \<and>
   handleClick (Some (0, 0)) 10 170 (scenarioBounds i1 i2 i3) = [] \<and>
   handleClick (Some (0, 0)) 700 170 (scenarioBounds i1 i2 i3) = []"
  by (simp add: handleClick_def scenarioBounds_def inHitbox_def)

section \<open>Particle motion: the rectangle\<close>

lemma rectBounds_radius: "p_radius (rectBounds bx byy bw bh p) = p_radius p"
  by (simp add: rectBounds_def Let_def)

lemma rectBounds_x:
  assumes "2 * p_radius p \<le> bw"
  shows "bx + p_radius p \<le> p_x (rectBounds bx byy bw bh p) \<and>
         p_x (rectBounds bx byy bw bh p) \<le> bx + bw - p_radius p"
  using assms by (simp add: rectBounds_def Let_def)

lemma rectBounds_y:
  assumes "2 * p_radius p \<le> bh"
  shows "byy + p_radius p \<le> p_y (rectBounds bx byy bw bh p) \<and>
         p_y (rectBounds bx byy bw bh p) \<le> byy + bh - p_radius p"
  using assms by (simp add: rectBounds_def Let_def)

lemma initCheck_radius: "p_radius (initCheck bx byy bw bh sh p) = p_radius p"
  by (simp add: initCheck_def)

text \<open>A bounce off the walls of the rectangle only negates velocity components.\<close>

lemma rectBounds_speed: "speed (rectBounds bx byy bw bh p) = speed p"
  by (simp add: speed_def rectBounds_def Let_def)

lemma rect_step:
  assumes "2 * p_radius p \<le> bw" "2 * p_radius p \<le> bh"
  shows "\<exists>p'. updateParticle bx byy bw bh RECT p = Some p' \<and>
              insideRect bx byy bw bh p' \<and> p_radius p' = p_radius p"
proof -
  define q where
    "q = initCheck bx byy bw bh RECT (p\<lparr>p_x := p_x p + p_vx p, p_y := p_y p + p_vy p\<rparr>)"
  have r: "p_radius q = p_radius p" by (simp add: q_def initCheck_radius)
  have u: "updateParticle bx byy bw bh RECT p = Some (rectBounds bx byy bw bh q)"
    by (simp add: updateParticle_def Let_def q_def)
  show ?thesis
    using rectBounds_x [of q bw bx byy bh] rectBounds_y [of q bh byy bx bw] assms
    by (simp add: u insideRect_def rectBounds_radius r)
qed

lemma rect_ticks:
  assumes "2 * p_radius p \<le> bw" "2 * p_radius p \<le> bh" "insideRect bx byy bw bh p \<or> 0 < n"
  shows "\<exists>p'. ticks n bx byy bw bh RECT p = Some p' \<and>
              insideRect bx byy bw bh p' \<and> p_radius p' = p_radius p"
  using assms
proof (induction n arbitrary: p)
  case 0
  then show ?case by simp
next
  case (Suc n)
  from rect_step [OF Suc.prems(1,2)] obtain q where
    q: "updateParticle bx byy bw bh RECT p = Some q" "insideRect bx byy bw bh q"
       "p_radius q = p_radius p"
    by blast
  from Suc.IH [of q] q Suc.prems obtain p' where
    "ticks n bx byy bw bh RECT q = Some p'" "insideRect bx byy bw bh p'"
    "p_radius p' = p_radius q"
    by auto
  with q show ?case by simp
qed

text \<open>
  C6. For a particle of radius \<open>r\<close> in a \<open>RECT\<close> shape with origin \<open>(bx, byy)\<close>, width
  \<open>w \<ge> 2 r\<close> and height \<open>h \<ge> 2 r\<close>, every number \<open>N \<ge> 1\<close> of ticks ends, with the
  radius unchanged and the centre in \<open>[bx + r, bx + w - r] \<times> [byy + r, byy + h - r]\<close>,
  whatever the particle's position and velocity were at the start.
\<close>

theorem C6_rect_containment:
  assumes "2 * p_radius p \<le> w" and "2 * p_radius p \<le> h" and "1 \<le> N"
  shows "\<exists>p'. ticks N bx byy w h RECT p = Some p' \<and> p_radius p' = p_radius p \<and>
              bx + p_radius p \<le> p_x p' \<and> p_x p' \<le> bx + w - p_radius p \<and>
              byy + p_radius p \<le> p_y p' \<and> p_y p' \<le> byy + h - p_radius p"
proof -
  from rect_ticks [of p w h bx byy N] assms obtain p' where
    "ticks N bx byy w h RECT p = Some p'" "insideRect bx byy w h p'" "p_radius p' = p_radius p"
    by auto
  then show ?thesis by (auto simp: insideRect_def)
qed

theorem C6_rect_containment_witness:
  "2 * p_radius \<lparr>p_x = 0, p_y = 0, p_vx = 3 / 4, p_vy = 3 / 4, p_radius = 6,
        p_color = Some ''#ef4444''\<rparr> \<le> (120::real) \<and>
   2 * p_radius \<lparr>p_x = 0, p_y = 0, p_vx = 3 / 4, p_vy = 3 / 4, p_radius = 6,
        p_color = Some ''#ef4444''\<rparr> \<le> (99::real) \<and>
   (1::nat) \<le> 2 \<and>
   (\<exists>p'. ticks 2 60 131 120 99 RECT
           \<lparr>p_x = 0, p_y = 0, p_vx = 3 / 4, p_vy = 3 / 4, p_radius = 6,
            p_color = Some ''#ef4444''\<rparr> = Some p' \<and>
         p_radius p' = 6 \<and> 60 + 6 \<le> p_x p' \<and> p_x p' \<le> 60 + 120 - 6 \<and>
         131 + 6 \<le> p_y p' \<and> p_y p' \<le> 131 + 99 - 6)"
  using C6_rect_containment [of "\<lparr>p_x = 0, p_y = 0, p_vx = 3 / 4, p_vy = 3 / 4, p_radius = 6,
        p_color = Some ''#ef4444''\<rparr>" 120 99 2 60 131]
  by simp

text \<open>
  C4 (the code at a failing input). A new particle, at the origin with velocity
  \<open>(0.75, 0.75)\<close> and radius 6, is ticked in the rectangle that \<open>drawCube\<close> passes for
  the bounds \<open>{x: 50, y: 100, w: 140, h: 140}\<close>. The position is advanced before the
  init check, which then finds \<open>(0.75, 0.75)\<close> and changes nothing; the particle ends
  in the corner \<open>(66, 137)\<close>, not at the centre \<open>(120, 180.5)\<close>.
\<close>

theorem C4_origin_particle_not_centred:
  "updateParticle 60 131 120 99 RECT
     \<lparr>p_x = 0, p_y = 0, p_vx = 3 / 4, p_vy = 3 / 4, p_radius = 6, p_color = Some ''#ef4444''\<rparr>
   = Some \<lparr>p_x = 66, p_y = 137, p_vx = - (3 / 4), p_vy = - (3 / 4), p_radius = 6,
           p_color = Some ''#ef4444''\<rparr> \<and>
   initCheck 60 131 120 99 RECT
     \<lparr>p_x = 0 + 3 / 4, p_y = 0 + 3 / 4, p_vx = 3 / 4, p_vy = 3 / 4, p_radius = 6,
      p_color = Some ''#ef4444''\<rparr>
   = \<lparr>p_x = 3 / 4, p_y = 3 / 4, p_vx = 3 / 4, p_vy = 3 / 4, p_radius = 6,
      p_color = Some ''#ef4444''\<rparr> \<and>
   (66, 137) \<noteq> (60 + 120 / 2 :: real, 131 + 99 / 2 :: real)"
  by (simp add: updateParticle_def initCheck_def rectBounds_def Let_def)

section \<open>Particle motion: the circle\<close>

lemma unit_normal:
  fixes dx dy d :: real
  assumes "d \<noteq> 0" and "d * d = dx * dx + dy * dy"
  shows "(dx / d) * (dx / d) + (dy / d) * (dy / d) = 1"
proof -
  have "(dx / d) * (dx / d) + (dy / d) * (dy / d) = (dx * dx + dy * dy) / (d * d)"
    by (simp add: add_divide_distrib)
  also have "\<dots> = (d * d) / (d * d)"
    by (simp only: assms(2))
  also have "\<dots> = 1"
    using assms(1) by simp
  finally show ?thesis .
qed

lemma scaled_norm:
  fixes nx ny c :: real
  assumes "nx * nx + ny * ny = 1"
  shows "sqrt ((nx * c) * (nx * c) + (ny * c) * (ny * c)) = \<bar>c\<bar>"
proof -
  have "(nx * c) * (nx * c) + (ny * c) * (ny * c) = (nx * nx + ny * ny) * (c * c)"
    by (simp add: algebra_simps)
  also have "\<dots> = c * c" using assms by simp
  finally show ?thesis by simp
qed

lemma circle_step:
  assumes "0 < bw - p_radius p"
  shows "\<exists>p'. circleBounds bx byy bw p = Some p' \<and> p_radius p' = p_radius p \<and>
              distFrom bx byy p' \<le> max (bw - p_radius p) \<bar>bw - p_radius p - 1\<bar>"
proof -
  define dx where "dx = p_x p - bx"
  define dy where "dy = p_y p - byy"
  define d where "d = sqrt (dx * dx + dy * dy)"
  have nn: "\<not> dx * dx + dy * dy < 0" by (simp add: not_less)
  have ms: "Math_sqrt (dx * dx + dy * dy) = Some d"
    using nn by (simp add: Math_sqrt_def d_def)
  show ?thesis
  proof (cases "d > bw - p_radius p")
    case False
    then have "circleBounds bx byy bw p = Some p"
      using ms by (simp add: circleBounds_def Let_def dx_def dy_def)
    moreover have "distFrom bx byy p = d"
      by (simp add: distFrom_def d_def dx_def dy_def)
    ultimately show ?thesis using False by (simp add: le_max_iff_disj)
  next
    case True
    with assms have pos: "d \<noteq> 0" by linarith
    define c where "c = bw - p_radius p - 1"
    define p' where "p' = p\<lparr>p_vx := p_vx p - 2 * (p_vx p * (dx / d) + p_vy p * (dy / d)) * (dx / d),
        p_vy := p_vy p - 2 * ((p_vx p - 2 * (p_vx p * (dx / d) + p_vy p * (dy / d)) * (dx / d)) * (dx / d) + p_vy p * (dy / d)) * (dy / d),
        p_x := bx + dx / d * c, p_y := byy + dy / d * c\<rparr>"
    have cb: "circleBounds bx byy bw p = Some p'"
      using ms True pos
      by (simp add: circleBounds_def Let_def dx_def [symmetric] dy_def [symmetric] p'_def c_def)
    have un: "(dx / d) * (dx / d) + (dy / d) * (dy / d) = 1"
    proof (rule unit_normal [OF pos])
      have "0 \<le> dx * dx + dy * dy" by simp
      then show "d * d = dx * dx + dy * dy" by (simp add: d_def)
    qed
    have "distFrom bx byy p' = sqrt ((dx / d * c) * (dx / d * c) + (dy / d * c) * (dy / d * c))"
      by (simp add: distFrom_def p'_def)
    also have "\<dots> = \<bar>c\<bar>" using un by (rule scaled_norm)
    finally have "distFrom bx byy p' = \<bar>c\<bar>" .
    moreover have "\<bar>c\<bar> \<le> max (bw - p_radius p) \<bar>bw - p_radius p - 1\<bar>"
      by (simp add: c_def)
    moreover have "p_radius p' = p_radius p" by (simp add: p'_def)
    ultimately show ?thesis using cb by simp
  qed
qed

lemma circle_update:
  assumes "0 < bw - p_radius p"
  shows "\<exists>p'. updateParticle bx byy bw bh CIRCLE p = Some p' \<and> p_radius p' = p_radius p \<and>
              distFrom bx byy p' \<le> max (bw - p_radius p) \<bar>bw - p_radius p - 1\<bar>"
proof -
  define q where "q = initCheck bx byy bw bh CIRCLE (p\<lparr>p_x := p_x p + p_vx p, p_y := p_y p + p_vy p\<rparr>)"
  have r: "p_radius q = p_radius p" by (simp add: q_def initCheck_radius)
  have u: "updateParticle bx byy bw bh CIRCLE p = circleBounds bx byy bw q"
    by (simp add: updateParticle_def Let_def q_def)
  show ?thesis
    using circle_step [of bw q bx byy] assms by (simp add: u r)
qed

lemma circle_ticks:
  assumes "0 < bw - p_radius p" "distFrom bx byy p \<le> max (bw - p_radius p) \<bar>bw - p_radius p - 1\<bar> \<or> 0 < n"
  shows "\<exists>p'. ticks n bx byy bw bh CIRCLE p = Some p' \<and> p_radius p' = p_radius p \<and>
              distFrom bx byy p' \<le> max (bw - p_radius p) \<bar>bw - p_radius p - 1\<bar>"
  using assms
proof (induction n arbitrary: p)
  case 0
  then show ?case by simp
next
  case (Suc n)
  from circle_update [OF Suc.prems(1)] obtain q where
    q: "updateParticle bx byy bw bh CIRCLE p = Some q" "p_radius q = p_radius p"
       "distFrom bx byy q \<le> max (bw - p_radius p) \<bar>bw - p_radius p - 1\<bar>"
    by blast
  from Suc.IH [of q] q Suc.prems obtain p' where
    "ticks n bx byy bw bh CIRCLE q = Some p'" "p_radius p' = p_radius q"
    "distFrom bx byy p' \<le> max (bw - p_radius q) \<bar>bw - p_radius q - 1\<bar>"
    by auto
  with q show ?case by simp
qed

lemma sqrt_3136: "sqrt (3136::real) = 56"
  by (rule real_sqrt_unique) simp_all

lemma sqrt_25: "sqrt (25::real) = 5"
  by (rule real_sqrt_unique) simp_all

lemma sqrt_16_25: "sqrt (16 / 25 :: real) = 4 / 5"
  by (rule real_sqrt_unique) (simp_all add: power2_eq_square)

text \<open>
  C1 (the code at a failing input). In the circle of centre \<open>(0,0)\<close> and radius 60, a
  particle of radius 5 that moves straight outwards with speed 1 crosses the boundary
  at distance 56. The reflection leaves it with the velocity \<open>(-0.6, 0.352)\<close>, whose
  length is below 1; the specular reflection would be \<open>(-0.6, -0.8)\<close>.
\<close>

theorem C1_circle_reflection_changes_speed:
  "updateParticle 0 0 60 60 CIRCLE
     \<lparr>p_x = 33, p_y = 44, p_vx = 3 / 5, p_vy = 4 / 5, p_radius = 5, p_color = Some ''#ef4444''\<rparr>
   = Some \<lparr>p_x = 162 / 5, p_y = 216 / 5, p_vx = - (3 / 5), p_vy = 44 / 125, p_radius = 5,
           p_color = Some ''#ef4444''\<rparr> \<and>
   speed \<lparr>p_x = 33, p_y = 44, p_vx = 3 / 5, p_vy = 4 / 5, p_radius = 5, p_color = Some ''#ef4444''\<rparr> = 1 \<and>
   speed \<lparr>p_x = 162 / 5, p_y = 216 / 5, p_vx = - (3 / 5), p_vy = 44 / 125, p_radius = 5,
           p_color = Some ''#ef4444''\<rparr> < 1"
proof -
  have m: "Math_sqrt 3136 = Some 56"
    by (simp add: Math_sqrt_def sqrt_3136)
  have i: "initCheck 0 0 60 60 CIRCLE
      \<lparr>p_x = 168 / 5, p_y = 224 / 5, p_vx = 3 / 5, p_vy = 4 / 5, p_radius = 5, p_color = Some ''#ef4444''\<rparr>
    = \<lparr>p_x = 168 / 5, p_y = 224 / 5, p_vx = 3 / 5, p_vy = 4 / 5, p_radius = 5, p_color = Some ''#ef4444''\<rparr>"
    by (simp add: initCheck_def)
  have c: "circleBounds 0 0 60
      \<lparr>p_x = 168 / 5, p_y = 224 / 5, p_vx = 3 / 5, p_vy = 4 / 5, p_radius = 5, p_color = Some ''#ef4444''\<rparr>
    = Some \<lparr>p_x = 162 / 5, p_y = 216 / 5, p_vx = - (3 / 5), p_vy = 44 / 125, p_radius = 5,
            p_color = Some ''#ef4444''\<rparr>"
    by (simp add: circleBounds_def Let_def m)
  have u: "updateParticle 0 0 60 60 CIRCLE
     \<lparr>p_x = 33, p_y = 44, p_vx = 3 / 5, p_vy = 4 / 5, p_radius = 5, p_color = Some ''#ef4444''\<rparr>
   = Some \<lparr>p_x = 162 / 5, p_y = 216 / 5, p_vx = - (3 / 5), p_vy = 44 / 125, p_radius = 5,
           p_color = Some ''#ef4444''\<rparr>"
    by (simp add: updateParticle_def Let_def i c)
  show ?thesis
    by (simp add: u speed_def)
qed

text \<open>
  A reflected particle is put at distance \<open>|R - r - 1|\<close> from the centre. In a circle
  with \<open>R - r < 1/2\<close> that is farther out than \<open>R - r\<close>: for \<open>R = 1.2\<close> and \<open>r = 1\<close>
  the distance is \<open>0.8\<close>.
\<close>

lemma small_circle_needs_tolerance:
  "ticks 1 0 0 (6 / 5) (6 / 5) CIRCLE
     \<lparr>p_x = 0, p_y = 0, p_vx = 3, p_vy = 4, p_radius = 1, p_color = Some ''#ef4444''\<rparr>
   = Some \<lparr>p_x = - (12 / 25), p_y = - (16 / 25), p_vx = - 3, p_vy = 44 / 25, p_radius = 1,
           p_color = Some ''#ef4444''\<rparr> \<and>
   distFrom 0 0 \<lparr>p_x = - (12 / 25), p_y = - (16 / 25), p_vx = - 3, p_vy = 44 / 25, p_radius = 1,
           p_color = Some ''#ef4444''\<rparr> = 4 / 5"
proof -
  have m: "Math_sqrt 25 = Some 5"
    by (simp add: Math_sqrt_def sqrt_25)
  have i: "initCheck 0 0 (6 / 5) (6 / 5) CIRCLE
      \<lparr>p_x = 3, p_y = 4, p_vx = 3, p_vy = 4, p_radius = 1, p_color = Some ''#ef4444''\<rparr>
    = \<lparr>p_x = 3, p_y = 4, p_vx = 3, p_vy = 4, p_radius = 1, p_color = Some ''#ef4444''\<rparr>"
    by (simp add: initCheck_def)
  have c: "circleBounds 0 0 (6 / 5)
      \<lparr>p_x = 3, p_y = 4, p_vx = 3, p_vy = 4, p_radius = 1, p_color = Some ''#ef4444''\<rparr>
    = Some \<lparr>p_x = - (12 / 25), p_y = - (16 / 25), p_vx = - 3, p_vy = 44 / 25, p_radius = 1,
           p_color = Some ''#ef4444''\<rparr>"
    by (simp add: circleBounds_def Let_def m)
  have u: "updateParticle 0 0 (6 / 5) (6 / 5) CIRCLE
     \<lparr>p_x = 0, p_y = 0, p_vx = 3, p_vy = 4, p_radius = 1, p_color = Some ''#ef4444''\<rparr>
   = Some \<lparr>p_x = - (12 / 25), p_y = - (16 / 25), p_vx = - 3, p_vy = 44 / 25, p_radius = 1,
           p_color = Some ''#ef4444''\<rparr>"
    by (simp add: updateParticle_def Let_def i c)
  show ?thesis
    by (simp add: u distFrom_def sqrt_16_25)
qed

text \<open>
  C7. For a particle of radius \<open>r\<close> in a \<open>CIRCLE\<close> shape of radius \<open>R > r\<close>, every
  number \<open>N \<ge> 1\<close> of ticks ends, with the radius unchanged and the distance from the
  centre at most \<open>R - r + 1\<close>; when \<open>R - r \<ge> 1/2\<close>, as in the bowl (\<open>R = 60\<close>, radii
  below 8), the distance is at most \<open>R - r\<close>.
\<close>

theorem C7_circle_containment:
  assumes "p_radius p < R" and "1 \<le> N"
  shows "\<exists>p'. ticks N cx cy R bh CIRCLE p = Some p' \<and> p_radius p' = p_radius p \<and>
              distFrom cx cy p' \<le> R - p_radius p + 1 \<and>
              (1 / 2 \<le> R - p_radius p \<longrightarrow> distFrom cx cy p' \<le> R - p_radius p)"
proof -
  have "0 < R - p_radius p" using assms(1) by simp
  from circle_ticks [OF this, of cx cy N bh] assms(2) obtain p' where
    t: "ticks N cx cy R bh CIRCLE p = Some p'" "p_radius p' = p_radius p"
    "distFrom cx cy p' \<le> max (R - p_radius p) \<bar>R - p_radius p - 1\<bar>"
    by auto
  have a: "max (R - p_radius p) \<bar>R - p_radius p - 1\<bar> \<le> R - p_radius p + 1"
    using assms(1) by simp
  have b: "1 / 2 \<le> R - p_radius p \<Longrightarrow>
           max (R - p_radius p) \<bar>R - p_radius p - 1\<bar> \<le> R - p_radius p"
    by simp
  from t a b show ?thesis by fastforce
qed

theorem C7_circle_containment_witness:
  "p_radius \<lparr>p_x = 33, p_y = 44, p_vx = 3 / 5, p_vy = 4 / 5, p_radius = 5,
       p_color = Some ''#ef4444''\<rparr> < (60::real) \<and>
   (1::nat) \<le> 3 \<and> (1 / 2 :: real) \<le> 60 - 5 \<and>
   (\<exists>p'. ticks 3 0 0 60 60 CIRCLE
           \<lparr>p_x = 33, p_y = 44, p_vx = 3 / 5, p_vy = 4 / 5, p_radius = 5,
            p_color = Some ''#ef4444''\<rparr> = Some p' \<and>
         p_radius p' = 5 \<and> distFrom 0 0 p' \<le> 60 - 5 + 1 \<and> distFrom 0 0 p' \<le> 60 - 5)"
  using C7_circle_containment [of "\<lparr>p_x = 33, p_y = 44, p_vx = 3 / 5, p_vy = 4 / 5, p_radius = 5,
       p_color = Some ''#ef4444''\<rparr>" 60 3 0 0 60]
  by simp

section \<open>The effect on the descriptor list: what it leaves in each slot\<close>

lemma spawnLoop_length: "length (fst (spawnLoop n rnd k acc)) = length acc + n"
  by (induction n arbitrary: k acc) simp_all

lemma setAt_ok:
  assumes "i \<le> length xs"
  shows "\<exists>ys. setAt xs i v = Inr ys \<and> Suc i \<le> length ys \<and> length xs \<le> length ys \<and>
              ys ! i = v \<and> (\<forall>j<length xs. j \<noteq> i \<longrightarrow> ys ! j = xs ! j)"
  using assms by (auto simp: setAt_def nth_append)

lemma effectBody_spec:
  assumes "index \<le> length (waterLevels s)" and "index < length (particles s)"
  shows "\<exists>s1 k1. effectBody c index rnd k s = Inr (s1, k1) \<and>
           currentWaterLevels s1 = currentWaterLevels s \<and>
           containerBounds s1 = containerBounds s \<and>
           length (particles s1) = length (particles s) \<and>
           Suc index \<le> length (waterLevels s1) \<and>
           (\<forall>j. j \<noteq> index \<longrightarrow> particles s1 ! j = particles s ! j) \<and>
           (\<forall>j<length (waterLevels s). j \<noteq> index \<longrightarrow> waterLevels s1 ! j = waterLevels s ! j) \<and>
           slotOutcome c (particles s ! index) (waterLevels s1 ! index) (particles s1 ! index)"
proof -
  define t :: real where "t = (if c_matter c = LIQUID then 0.7 else 0)"
  from setAt_ok [OF assms(1), of t] obtain wl where
    wl: "setAt (waterLevels s) index t = Inr wl" "Suc index \<le> length wl" "wl ! index = t"
        "\<forall>j<length (waterLevels s). j \<noteq> index \<longrightarrow> wl ! j = waterLevels s ! j"
    by blast
  show ?thesis
  proof (cases "c_matter c = GAS")
    case False
    have pa: "setAt (particles s) index [] = Inr ((particles s)[index := []])"
      using assms(2) by (simp add: setAt_def)
    have "effectBody c index rnd k s =
            Inr (s\<lparr>waterLevels := wl, particles := (particles s)[index := []]\<rparr>, k)"
      using False wl(1) pa by (simp add: effectBody_def t_def Let_def)
    then show ?thesis
      using False wl assms(2) by (simp add: slotOutcome_def t_def)
  next
    case True
    show ?thesis
    proof (cases "particles s ! index = []")
      case False
      have "effectBody c index rnd k s = Inr (s\<lparr>waterLevels := wl\<rparr>, k)"
        using True False wl(1) assms(2) by (simp add: effectBody_def t_def Let_def)
      then show ?thesis
        using True False wl by (simp add: slotOutcome_def t_def)
    next
      case empty: True
      obtain np k1 where sp: "spawnLoop 40 rnd k [] = (np, k1)"
        by (cases "spawnLoop 40 rnd k []")
      have len: "length np = 40"
        using spawnLoop_length [of 40 rnd k "[]"] sp by simp
      have "effectBody c index rnd k s =
              Inr (s\<lparr>waterLevels := wl, particles := (particles s)[index := np]\<rparr>, k1)"
        using True empty wl(1) assms(2) sp by (simp add: effectBody_def t_def Let_def)
      then show ?thesis
        using True empty wl assms(2) len by (simp add: slotOutcome_def t_def)
    qed
  qed
qed


lemma effectLoop_spec:
  assumes "index \<le> length (waterLevels s)" and "index + length cs \<le> length (particles s)"
  shows "\<exists>s' k'. effectLoop cs index rnd k s = Inr (s', k') \<and>
           currentWaterLevels s' = currentWaterLevels s \<and>
           containerBounds s' = containerBounds s \<and>
           length (particles s') = length (particles s) \<and>
           (\<forall>j<index. particles s' ! j = particles s ! j \<and> waterLevels s' ! j = waterLevels s ! j) \<and>
           (\<forall>j<length cs. slotOutcome (cs ! j) (particles s ! (index + j))
                              (waterLevels s' ! (index + j)) (particles s' ! (index + j)))"
  using assms
proof (induction cs arbitrary: index k s)
  case Nil
  then show ?case by simp
next
  case (Cons c cs)
  have lt: "index < length (particles s)" using Cons.prems(2) by simp
  from effectBody_spec [OF Cons.prems(1) lt, of c rnd k] obtain s1 k1 where
    b: "effectBody c index rnd k s = Inr (s1, k1)"
       "currentWaterLevels s1 = currentWaterLevels s"
       "containerBounds s1 = containerBounds s"
       "length (particles s1) = length (particles s)"
       "Suc index \<le> length (waterLevels s1)"
       "\<forall>j. j \<noteq> index \<longrightarrow> particles s1 ! j = particles s ! j"
       "\<forall>j<length (waterLevels s). j \<noteq> index \<longrightarrow> waterLevels s1 ! j = waterLevels s ! j"
       "slotOutcome c (particles s ! index) (waterLevels s1 ! index) (particles s1 ! index)"
    by blast
  have p2: "Suc index + length cs \<le> length (particles s1)"
    using Cons.prems(2) b(4) by simp
  from Cons.IH [OF b(5) p2, of k1] obtain s' k' where
    l: "effectLoop cs (Suc index) rnd k1 s1 = Inr (s', k')"
       "currentWaterLevels s' = currentWaterLevels s1"
       "containerBounds s' = containerBounds s1"
       "length (particles s') = length (particles s1)"
       "\<forall>j<Suc index. particles s' ! j = particles s1 ! j \<and> waterLevels s' ! j = waterLevels s1 ! j"
       "\<forall>j<length cs. slotOutcome (cs ! j) (particles s1 ! (Suc index + j))
                              (waterLevels s' ! (Suc index + j)) (particles s' ! (Suc index + j))"
    by blast
  have run: "effectLoop (c # cs) index rnd k s = Inr (s', k')"
    using b(1) l(1) by simp
  have before: "\<forall>j<index. particles s' ! j = particles s ! j \<and> waterLevels s' ! j = waterLevels s ! j"
  proof (intro allI impI)
    fix j assume j: "j < index"
    then have "particles s' ! j = particles s1 ! j" "waterLevels s' ! j = waterLevels s1 ! j"
      using l(5) by simp_all
    moreover have "particles s1 ! j = particles s ! j" using b(6) j by simp
    moreover have "waterLevels s1 ! j = waterLevels s ! j" using b(7) j Cons.prems(1) by simp
    ultimately show "particles s' ! j = particles s ! j \<and> waterLevels s' ! j = waterLevels s ! j"
      by simp
  qed
  have slots: "\<forall>j<length (c # cs). slotOutcome ((c # cs) ! j) (particles s ! (index + j))
                              (waterLevels s' ! (index + j)) (particles s' ! (index + j))"
  proof (intro allI impI)
    fix j assume j: "j < length (c # cs)"
    show "slotOutcome ((c # cs) ! j) (particles s ! (index + j))
            (waterLevels s' ! (index + j)) (particles s' ! (index + j))"
    proof (cases j)
      case 0
      have "particles s' ! index = particles s1 ! index" "waterLevels s' ! index = waterLevels s1 ! index"
        using l(5) by simp_all
      then show ?thesis using b(8) 0 by simp
    next
      case (Suc m)
      then have m: "m < length cs" using j by simp
      have eq: "particles s1 ! (Suc index + m) = particles s ! (Suc index + m)"
        using b(6) by simp
      have "slotOutcome (cs ! m) (particles s1 ! (Suc index + m))
              (waterLevels s' ! (Suc index + m)) (particles s' ! (Suc index + m))"
        using l(6) m by blast
      then show ?thesis using eq Suc by simp
    qed
  qed
  show ?case
    using run l(2,3,4) b(2,3,4) before slots by simp
qed

lemma initEffect_spec:
  assumes "length cs \<le> length (particles s)"
  shows "\<exists>s' k'. initEffect cs rnd k s = Inr (s', k') \<and>
           currentWaterLevels s' = currentWaterLevels s \<and>
           (\<forall>j<length cs. slotOutcome (cs ! j) (particles s ! j) (waterLevels s' ! j) (particles s' ! j))"
  using effectLoop_spec [of 0 s cs rnd k] assms by (auto simp: initEffect_def)

text \<open>
  C8. When every descriptor has a slot, the effect ends, and in the slot of a descriptor
  whose matter state is not \<open>GAS\<close> the batch is empty afterwards (so a batch is cleared
  when the state changes from \<open>GAS\<close> to any other state), while in the slot of a
  descriptor whose matter state is \<open>GAS\<close> and whose batch was empty the batch holds
  exactly 40 particles afterwards.
\<close>

theorem C8_batch_reset:
  assumes "length cs \<le> length (particles s)" and "i < length cs"
  shows "\<exists>s' k'. initEffect cs rnd k s = Inr (s', k') \<and>
           (c_matter (cs ! i) \<noteq> GAS \<longrightarrow> particles s' ! i = []) \<and>
           (c_matter (cs ! i) = GAS \<and> particles s ! i = [] \<longrightarrow> length (particles s' ! i) = 40)"
proof -
  from initEffect_spec [OF assms(1), of rnd k] obtain s' k' where
    r: "initEffect cs rnd k s = Inr (s', k')"
       "\<forall>j<length cs. slotOutcome (cs ! j) (particles s ! j) (waterLevels s' ! j) (particles s' ! j)"
    by blast
  from r(2) assms(2) have
    "slotOutcome (cs ! i) (particles s ! i) (waterLevels s' ! i) (particles s' ! i)"
    by blast
  then show ?thesis
    using r(1) by (auto simp: slotOutcome_def)
qed

theorem C8_batch_reset_witness:
  "length solidLiquidGas \<le> length (particles midState) \<and>
   (0::nat) < length solidLiquidGas \<and> (2::nat) < length solidLiquidGas \<and>
   c_matter (gasLiquidEmpty ! 0) = GAS \<and> c_matter (solidLiquidGas ! 0) = SOLID \<and>
   length (particles midState ! 0) = 40 \<and>
   (\<exists>s' k'. initEffect solidLiquidGas (\<lambda>_. 1 / 2) 0 midState = Inr (s', k') \<and>
            particles s' ! 0 = []) \<and>
   c_matter (solidLiquidGas ! 2) = GAS \<and> particles midState ! 2 = [] \<and>
   (\<exists>s' k'. initEffect solidLiquidGas (\<lambda>_. 1 / 2) 0 midState = Inr (s', k') \<and>
            length (particles s' ! 2) = 40)"
proof -
  have a: "length solidLiquidGas \<le> length (particles midState)"
    by (simp add: solidLiquidGas_def midState_def)
  have i0: "0 < length solidLiquidGas" and i2: "2 < length solidLiquidGas"
    by (simp_all add: solidLiquidGas_def)
  have m0: "c_matter (solidLiquidGas ! 0) = SOLID" and m2: "c_matter (solidLiquidGas ! 2) = GAS"
    by (simp_all add: solidLiquidGas_def)
  have g0: "c_matter (gasLiquidEmpty ! 0) = GAS"
    by (simp add: gasLiquidEmpty_def)
  have b0: "length (particles midState ! 0) = 40" and b2: "particles midState ! 2 = []"
    by (simp_all add: midState_def)
  from C8_batch_reset [OF a i0, of "\<lambda>_. 1 / 2" 0] m0
  have r0: "\<exists>s' k'. initEffect solidLiquidGas (\<lambda>_. 1 / 2) 0 midState = Inr (s', k') \<and>
            particles s' ! 0 = []"
    by auto
  from C8_batch_reset [OF a i2, of "\<lambda>_. 1 / 2" 0] m2 b2
  have r2: "\<exists>s' k'. initEffect solidLiquidGas (\<lambda>_. 1 / 2) 0 midState = Inr (s', k') \<and>
            length (particles s' ! 2) = 40"
    by auto
  from a i0 i2 g0 m0 b0 r0 m2 b2 r2 show ?thesis by blast
qed

text \<open>
  C5 (as stated, refuted). The effect runs for a new instance of an unchanged descriptor
  list and leaves the state as it was: the jar's target fill \<open>0.7\<close> and current fill
  \<open>0.5\<close> are not set to zero, and the box's particles stay at \<open>(66, 137)\<close>.
\<close>

theorem C5_effect_counterexample:
  "initEffect gasLiquidEmpty (\<lambda>_. 1 / 2) 0 midState = Inr (midState, 0) \<and>
   waterLevels midState ! 1 = 7 / 10 \<and>
   currentWaterLevels midState ! 1 = 1 / 2 \<and>
   p_x (particles midState ! 0 ! 0) = 66 \<and> p_y (particles midState ! 0 ! 0) = 137"
  by (simp add: initEffect_def effectBody_def setAt_def gasLiquidEmpty_def midState_def
      cornerParticle_def Let_def)

text \<open>
  C5 (amended). When every descriptor has a slot, the effect that runs for a new
  descriptor list ends and re-derives each slot from its descriptor only: the current
  fill levels are unchanged, the target fill is \<open>0.7\<close> for a liquid and \<open>0\<close>
  otherwise, a batch is emptied when the matter state is not \<open>GAS\<close>, an empty batch
  of a \<open>GAS\<close> slot is replaced by 40 particles, and a non-empty batch of a \<open>GAS\<close>
  slot is left as it is.
\<close>

theorem C5_effect_keeps_state:
  assumes "length cs \<le> length (particles s)" and "i < length cs"
  shows "\<exists>s' k'. initEffect cs rnd k s = Inr (s', k') \<and>
           currentWaterLevels s' = currentWaterLevels s \<and>
           waterLevels s' ! i = (if c_matter (cs ! i) = LIQUID then 0.7 else 0) \<and>
           (c_matter (cs ! i) \<noteq> GAS \<longrightarrow> particles s' ! i = []) \<and>
           (c_matter (cs ! i) = GAS \<and> particles s ! i = [] \<longrightarrow>
              length (particles s' ! i) = 40) \<and>
           (c_matter (cs ! i) = GAS \<and> particles s ! i \<noteq> [] \<longrightarrow>
              particles s' ! i = particles s ! i)"
proof -
  from initEffect_spec [OF assms(1), of rnd k] obtain s' k' where
    r: "initEffect cs rnd k s = Inr (s', k')"
       "currentWaterLevels s' = currentWaterLevels s"
       "\<forall>j<length cs. slotOutcome (cs ! j) (particles s ! j) (waterLevels s' ! j) (particles s' ! j)"
    by blast
  from r(3) assms(2) have
    "slotOutcome (cs ! i) (particles s ! i) (waterLevels s' ! i) (particles s' ! i)"
    by blast
  then show ?thesis
    using r(1,2) by (auto simp: slotOutcome_def)
qed

theorem C5_effect_keeps_state_witness:
  "length gasLiquidEmpty \<le> length (particles midState) \<and> (0::nat) < length gasLiquidEmpty \<and>
   c_matter (gasLiquidEmpty ! 0) = GAS \<and> particles midState ! 0 \<noteq> [] \<and>
   (\<exists>s' k'. initEffect gasLiquidEmpty (\<lambda>_. 1 / 2) 0 midState = Inr (s', k') \<and>
            currentWaterLevels s' = [0, 1 / 2, 0] \<and>
            waterLevels s' ! 0 = 0 \<and>
            particles s' ! 0 = replicate 40 cornerParticle)"
proof -
  have a: "length gasLiquidEmpty \<le> length (particles midState)"
    by (simp add: gasLiquidEmpty_def midState_def)
  have i0: "0 < length gasLiquidEmpty"
    by (simp add: gasLiquidEmpty_def)
  have g0: "c_matter (gasLiquidEmpty ! 0) = GAS"
    by (simp add: gasLiquidEmpty_def)
  have b0: "particles midState ! 0 = replicate 40 cornerParticle"
    by (simp add: midState_def)
  have ne: "particles midState ! 0 \<noteq> []"
    by (simp add: midState_def)
  have cw: "currentWaterLevels midState = [0, 1 / 2, 0]"
    by (simp add: midState_def)
  from C5_effect_keeps_state [OF a i0, of "\<lambda>_. 1 / 2" 0] g0 ne b0 cw
  have "\<exists>s' k'. initEffect gasLiquidEmpty (\<lambda>_. 1 / 2) 0 midState = Inr (s', k') \<and>
            currentWaterLevels s' = [0, 1 / 2, 0] \<and>
            waterLevels s' ! 0 = 0 \<and>
            particles s' ! 0 = replicate 40 cornerParticle"
    by auto
  with a i0 g0 ne show ?thesis by blast
qed

section \<open>The spawned particles\<close>

lemma spawnLoop_fst:
  "fst (spawnLoop n rnd k acc) = acc @ map (\<lambda>i. newParticle rnd (k + 4 * i)) [0..<n]"
proof (induction n arbitrary: k acc)
  case 0
  show ?case by simp
next
  case (Suc n)
  have "map (\<lambda>i. newParticle rnd (k + 4 * i)) [0..<Suc n] =
        newParticle rnd k # map (\<lambda>i. newParticle rnd (k + 4 + 4 * i)) [0..<n]"
    by (simp only: map_upt_Suc) (simp add: add.assoc)
  then show ?case
    using Suc [of "k + 4" "acc @ [newParticle rnd k]"] by simp
qed

lemma jsIndex_mem:
  assumes "0 \<le> i" and "i < int (length xs)"
  shows "jsIndex xs i \<in> Some ` set xs"
proof -
  have "nat i < length xs" using assms by simp
  then show ?thesis using assms(1) by (simp add: jsIndex_def)
qed

lemma spawnLoop_first: "newParticle rnd k \<in> set (fst (spawnLoop (Suc n) rnd k []))"
  by (simp only: spawnLoop_fst map_upt_Suc) simp

lemma fl_below_1: "fl (1 - 1 / 2 ^ 53) = 1 - 1 / 2 ^ 53"
proof -
  have "fl (1 - 1 / 2 ^ 53) =
        of_int (rne ((1 - 1 / 2 ^ 53) / 2 powi (- 1 - 52))) * 2 powi (- 1 - 52)"
    by (rule fl_eval) simp_all
  then show ?thesis by simp
qed

lemma fl_between:
  assumes "a \<le> x" and "x \<le> b" and "fl a = a" and "fl b = b"
  shows "a \<le> fl x \<and> fl x \<le> b"
  using fl_mono [OF assms(1)] fl_mono [OF assms(2)] assms(3,4) by simp

lemma fl_minus_half: "fl (- (1 / 2)) = - (1 / 2)"
  by (simp only: fl_minus fl_half)

lemma fl_minus_3_2: "fl (- (3 / 2)) = - (3 / 2)"
  by (simp only: fl_minus fl_3_2)

lemma velocity_range:
  assumes "0 \<le> u" and "u < 1"
  shows "- (3 / 2) \<le> fl (fl (u - 1 / 2) * 3) \<and> fl (fl (u - 1 / 2) * 3) \<le> 3 / 2"
proof -
  have "- (1 / 2) \<le> fl (u - 1 / 2) \<and> fl (u - 1 / 2) \<le> 1 / 2"
    using assms by (intro fl_between fl_minus_half fl_half) simp_all
  then have "- (3 / 2) \<le> fl (u - 1 / 2) * 3" "fl (u - 1 / 2) * 3 \<le> 3 / 2" by simp_all
  then show ?thesis by (intro fl_between fl_minus_3_2 fl_3_2)
qed

lemma radius_range:
  assumes "0 \<le> u" and "u < 1"
  shows "4 \<le> fl (4 + fl (u * 4)) \<and> fl (4 + fl (u * 4)) \<le> 8"
proof -
  have "0 \<le> fl (u * 4) \<and> fl (u * 4) \<le> 4"
    using assms by (intro fl_between fl_0 fl_4) simp_all
  then have "4 \<le> 4 + fl (u * 4)" "4 + fl (u * 4) \<le> 8" by simp_all
  then show ?thesis by (intro fl_between fl_4 fl_8)
qed

lemma colour_index_range:
  assumes "0 \<le> u" and "u < 1" and "fl u = u"
  shows "0 \<le> \<lfloor>fl (u * 4)\<rfloor> \<and> \<lfloor>fl (u * 4)\<rfloor> < 4"
proof -
  have "u \<le> 1 - 1 / 2 ^ 53" using assms(3,2) by (rule double_below_1)
  then have "u * 4 \<le> 4 - 1 / 2 ^ 51" by simp
  moreover have "0 \<le> u * 4" using assms(1) by simp
  ultimately have "0 \<le> fl (u * 4) \<and> fl (u * 4) \<le> 4 - 1 / 2 ^ 51"
    by (intro fl_between fl_0 fl_below_4)
  then have "0 \<le> fl (u * 4)" "fl (u * 4) < 4" by simp_all
  then show ?thesis by (simp add: floor_less_iff)
qed

lemma newParticle_range:
  assumes "\<forall>j. 0 \<le> rnd j \<and> rnd j < 1 \<and> fl (rnd j) = rnd j"
  shows "p_x (newParticle rnd k) = 0 \<and> p_y (newParticle rnd k) = 0 \<and>
         - 1.5 \<le> p_vx (newParticle rnd k) \<and> p_vx (newParticle rnd k) \<le> 1.5 \<and>
         - 1.5 \<le> p_vy (newParticle rnd k) \<and> p_vy (newParticle rnd k) \<le> 1.5 \<and>
         4 \<le> p_radius (newParticle rnd k) \<and> p_radius (newParticle rnd k) \<le> 8 \<and>
         p_color (newParticle rnd k) \<in> Some ` set gasParticles"
proof -
  have a: "0 \<le> rnd k" "rnd k < 1" "0 \<le> rnd (k + 1)" "rnd (k + 1) < 1"
          "0 \<le> rnd (k + 2)" "rnd (k + 2) < 1"
          "0 \<le> rnd (k + 3)" "rnd (k + 3) < 1" "fl (rnd (k + 3)) = rnd (k + 3)"
    using assms by simp_all
  have len: "length gasParticles = 4" by (simp add: gasParticles_def)
  have "jsIndex gasParticles \<lfloor>fl (rnd (k + 3) * 4)\<rfloor> \<in> Some ` set gasParticles"
    using colour_index_range [OF a(7,8,9)] by (intro jsIndex_mem) (simp_all add: len)
  then have col: "p_color (newParticle rnd k) \<in> Some ` set gasParticles"
    by (simp add: newParticle_def len)
  show ?thesis
    using velocity_range [OF a(1,2)] velocity_range [OF a(3,4)] radius_range [OF a(5,6)] col
    by (simp add: newParticle_def)
qed

lemma radius_at_largest_draw:
  assumes "rnd (k + 2) = 1 - 1 / 2 ^ 53"
  shows "p_radius (newParticle rnd k) = 8"
proof -
  have e1: "(1 - 1 / 2 ^ 53) * 4 = (4 - 1 / 2 ^ 51 :: real)" by simp
  have e2: "4 + (4 - 1 / 2 ^ 51) = (8 - 1 / 2 ^ 51 :: real)" by simp
  have "p_radius (newParticle rnd k) = fl (4 + fl (rnd (k + 2) * 4))"
    by (simp add: newParticle_def)
  also have "\<dots> = fl (4 + fl ((1 - 1 / 2 ^ 53) * 4))" by (simp only: assms)
  also have "\<dots> = 8" by (simp only: e1 fl_below_4 e2 fl_below_8)
  finally show ?thesis .
qed

text \<open>
  C10 (as stated, refuted). \<open>1 - 2 ^ -53\<close> is the largest double below 1. For this
  draw, \<open>4 + Math.random() * 4\<close> is \<open>8 - 2 ^ -51\<close> before rounding, half way
  between two doubles, and rounds to 8: the radius is not below 8.
\<close>

theorem C10_radius_counterexample:
  "0 \<le> (1 - 1 / 2 ^ 53 :: real) \<and> (1 - 1 / 2 ^ 53 :: real) < 1 \<and>
   fl (1 - 1 / 2 ^ 53) = 1 - 1 / 2 ^ 53 \<and>
   newParticle (\<lambda>_. 1 - 1 / 2 ^ 53) 0 \<in> set (fst (spawnLoop 40 (\<lambda>_. 1 - 1 / 2 ^ 53) 0 [])) \<and>
   p_radius (newParticle (\<lambda>_. 1 - 1 / 2 ^ 53) 0) = 8 \<and>
   \<not> p_radius (newParticle (\<lambda>_. 1 - 1 / 2 ^ 53) 0) < 8"
proof -
  have r: "p_radius (newParticle (\<lambda>_. 1 - 1 / 2 ^ 53) 0) = 8"
    by (rule radius_at_largest_draw) (rule refl)
  have m: "newParticle (\<lambda>_. 1 - 1 / 2 ^ 53) 0 \<in> set (fst (spawnLoop 40 (\<lambda>_. 1 - 1 / 2 ^ 53) 0 []))"
    using spawnLoop_first [of "\<lambda>_. 1 - 1 / 2 ^ 53" 0 39] by simp
  have b: "0 \<le> (1 - 1 / 2 ^ 53 :: real)" "(1 - 1 / 2 ^ 53 :: real) < 1" by simp_all
  have n: "\<not> p_radius (newParticle (\<lambda>_. 1 - 1 / 2 ^ 53) 0) < 8" by (simp only: r)
  from b fl_below_1 m r n show ?thesis by blast
qed

text \<open>
  C10 (amended). When every draw of \<open>Math.random()\<close> is a double in \<open>[0, 1)\<close>, a
  spawned batch has 40 particles, and each of them is at \<open>(0, 0)\<close>, has \<open>vx\<close> and
  \<open>vy\<close> in \<open>[-1.5, 1.5]\<close>, a radius in the closed interval \<open>[4, 8]\<close> and one of the
  four colours of \<open>COLORS.gasParticles\<close>.
\<close>

theorem C10_spawned_particles:
  assumes "\<forall>j. 0 \<le> rnd j \<and> rnd j < 1 \<and> fl (rnd j) = rnd j"
    and "p \<in> set (fst (spawnLoop 40 rnd k []))"
  shows "length (fst (spawnLoop 40 rnd k [])) = 40 \<and>
         p_x p = 0 \<and> p_y p = 0 \<and>
         - 1.5 \<le> p_vx p \<and> p_vx p \<le> 1.5 \<and>
         - 1.5 \<le> p_vy p \<and> p_vy p \<le> 1.5 \<and>
         4 \<le> p_radius p \<and> p_radius p \<le> 8 \<and>
         p_color p \<in> Some ` set gasParticles"
proof -
  from assms(2) obtain i where "p = newParticle rnd (k + 4 * i)"
    by (auto simp: spawnLoop_fst)
  then show ?thesis
    using newParticle_range [OF assms(1), of "k + 4 * i"] by (simp add: spawnLoop_length)
qed

theorem C10_spawned_particles_witness:
  "(\<forall>j. (0::real) \<le> (\<lambda>_. 1 / 2) j \<and> (\<lambda>_. 1 / 2 :: real) j < 1 \<and>
        fl ((\<lambda>_. 1 / 2) j) = (\<lambda>_. 1 / 2) j) \<and>
   \<lparr>p_x = 0, p_y = 0, p_vx = 0, p_vy = 0, p_radius = 6, p_color = Some ''#10b981''\<rparr>
     \<in> set (fst (spawnLoop 40 (\<lambda>_. 1 / 2) 0 [])) \<and>
   length (fst (spawnLoop 40 (\<lambda>_. 1 / 2) 0 [])) = 40 \<and>
   - 1.5 \<le> p_vx \<lparr>p_x = 0, p_y = 0, p_vx = 0, p_vy = 0, p_radius = 6, p_color = Some ''#10b981''\<rparr> \<and>
   p_radius \<lparr>p_x = 0, p_y = 0, p_vx = 0, p_vy = 0, p_radius = 6, p_color = Some ''#10b981''\<rparr> \<le> 8 \<and>
   p_color \<lparr>p_x = 0, p_y = 0, p_vx = 0, p_vy = 0, p_radius = 6, p_color = Some ''#10b981''\<rparr>
     \<in> Some ` set gasParticles"
proof -
  have n: "newParticle (\<lambda>_. 1 / 2) 0 =
        \<lparr>p_x = 0, p_y = 0, p_vx = 0, p_vy = 0, p_radius = 6, p_color = Some ''#10b981''\<rparr>"
    by (simp add: newParticle_def jsIndex_def gasParticles_def fl_2 fl_6)
  have m: "\<lparr>p_x = 0, p_y = 0, p_vx = 0, p_vy = 0, p_radius = 6, p_color = Some ''#10b981''\<rparr>
     \<in> set (fst (spawnLoop 40 (\<lambda>_. 1 / 2) 0 []))"
    using spawnLoop_first [of "\<lambda>_. 1 / 2" 0 39] by (simp add: n)
  have r: "\<forall>j. (0::real) \<le> (\<lambda>_. 1 / 2) j \<and> (\<lambda>_. 1 / 2 :: real) j < 1 \<and>
        fl ((\<lambda>_. 1 / 2) j) = (\<lambda>_. 1 / 2) j"
    by (simp add: fl_half)
  from C10_spawned_particles [OF r m] m r show ?thesis by simp
qed

section \<open>The bowl: a liquid surface outside the sphere\<close>

lemma Math_sqrt_NaN:
  assumes "0 \<le> r" and "r < d"
  shows "Math_sqrt (r * r - d * d) = None"
proof -
  have "r * r < d * d"
    using assms by (intro mult_strict_mono') simp_all
  then show ?thesis by (simp add: Math_sqrt_def)
qed

lemma sphereLiquid_NaN:
  assumes "lh = (2 * r) * waterLevel" and "wy = (cy + r) - lh" and "d = \<bar>cy - wy\<bar>"
    and "Math_sqrt (r * r - d * d) = None"
  shows "sphereLiquid x w cx cy r waterLevel =
          [Save, BeginPath, Arc cx cy r 0 (pi * 2), Clip,
           FillStyle waterFill, FillRect x wy w lh, Restore]"
  unfolding sphereLiquid_def Let_def assms(1)[symmetric] assms(2)[symmetric] assms(3)[symmetric] assms(4)
  by simp


lemma drawSphere_LIQUID:
  assumes "cx = x + w / 2" and "cy = y + h / 2 + 10" and "r = w / 2 - 10"
  shows "drawSphere x y w h LIQUID waterLevel ps =
          Some (sphereGlassBody cx cy r @ sphereLiquid x w cx cy r waterLevel @
                sphereGlassDetails cx cy r (r * 0.6) (r * 0.6 * 0.25) (cy - r + 5), ps)"
  unfolding drawSphere_def Let_def assms(1)[symmetric] assms(2)[symmetric] assms(3)[symmetric]
  by simp

lemma sphere_frame_ellipses:
  "filter isEllipse
     (sphereGlassBody cx cy r @
      [Save, BeginPath, Arc cx cy r 0 (pi * 2), Clip,
       FillStyle waterFill, FillRect x wy w lh, Restore] @
      sphereGlassDetails cx cy r openR openRy openY)
   = [Ellipse cx openY openR openRy 0 0 (pi * 2)]"
  by (simp add: sphereGlassBody_def sphereGlassDetails_def)


text \<open>
  C9. In \<open>drawSphere\<close> for a liquid, let \<open>r \<ge> 0\<close> be the sphere's radius and \<open>d\<close> the
  vertical distance from the centre to the liquid surface. When \<open>d\<close> exceeds \<open>r\<close>,
  \<open>Math.sqrt(r*r - d*d)\<close> is NaN, the guard skips the surface ellipse, and the frame
  consists of the glass body, the clipped fill rectangle and the glass details: the only
  ellipse drawn is the opening rim.
\<close>

theorem C9_bowl_surface_skipped:
  assumes "cx = x + w / 2" and "cy = y + h / 2 + 10" and "r = w / 2 - 10"
    and "lh = (2 * r) * waterLevel" and "wy = (cy + r) - lh" and "d = \<bar>cy - wy\<bar>"
    and "0 \<le> r" and "r < d"
  shows "Math_sqrt (r * r - d * d) = None \<and>
         drawSphere x y w h LIQUID waterLevel ps =
           Some (sphereGlassBody cx cy r @
                 [Save, BeginPath, Arc cx cy r 0 (pi * 2), Clip,
                  FillStyle waterFill, FillRect x wy w lh, Restore] @
                 sphereGlassDetails cx cy r (r * 0.6) (r * 0.6 * 0.25) (cy - r + 5), ps) \<and>
         filter isEllipse
           (sphereGlassBody cx cy r @
            [Save, BeginPath, Arc cx cy r 0 (pi * 2), Clip,
             FillStyle waterFill, FillRect x wy w lh, Restore] @
            sphereGlassDetails cx cy r (r * 0.6) (r * 0.6 * 0.25) (cy - r + 5))
         = [Ellipse cx (cy - r + 5) (r * 0.6) (r * 0.6 * 0.25) 0 0 (pi * 2)]"
proof -
  have nan: "Math_sqrt (r * r - d * d) = None"
    using assms(7,8) by (rule Math_sqrt_NaN)
  have liq: "sphereLiquid x w cx cy r waterLevel =
          [Save, BeginPath, Arc cx cy r 0 (pi * 2), Clip,
           FillStyle waterFill, FillRect x wy w lh, Restore]"
    using assms(4,5,6) nan by (rule sphereLiquid_NaN)
  have dr: "drawSphere x y w h LIQUID waterLevel ps =
           Some (sphereGlassBody cx cy r @
                 [Save, BeginPath, Arc cx cy r 0 (pi * 2), Clip,
                  FillStyle waterFill, FillRect x wy w lh, Restore] @
                 sphereGlassDetails cx cy r (r * 0.6) (r * 0.6 * 0.25) (cy - r + 5), ps)"
    using drawSphere_LIQUID [OF assms(1,2,3), of waterLevel ps] by (simp only: liq)
  from nan dr sphere_frame_ellipses show ?thesis by blast
qed

theorem C9_bowl_surface_skipped_witness:
  "(0::real) = - 60 + 120 / 2 \<and> (0::real) = - 70 + 120 / 2 + 10 \<and> (50::real) = 120 / 2 - 10 \<and>
   (110::real) = (2 * 50) * (11 / 10) \<and> (- 60 :: real) = (0 + 50) - 110 \<and>
   (60::real) = \<bar>0 - (- 60)\<bar> \<and> (0::real) \<le> 50 \<and> (50::real) < 60 \<and>
   Math_sqrt (50 * 50 - 60 * 60) = None \<and>
   drawSphere (- 60) (- 70) 120 120 LIQUID (11 / 10) [] =
     Some (sphereGlassBody 0 0 50 @
           [Save, BeginPath, Arc 0 0 50 0 (pi * 2), Clip,
            FillStyle waterFill, FillRect (- 60) (- 60) 120 110, Restore] @
           sphereGlassDetails 0 0 50 (50 * 0.6) (50 * 0.6 * 0.25) (0 - 50 + 5), [])"
proof -
  have h1: "(0::real) = - 60 + 120 / 2" and h2: "(0::real) = - 70 + 120 / 2 + 10"
    and h3: "(50::real) = 120 / 2 - 10" and h4: "(110::real) = (2 * 50) * (11 / 10)"
    and h5: "(- 60 :: real) = (0 + 50) - 110" and h6: "(60::real) = \<bar>0 - (- 60)\<bar>"
    and h7: "(0::real) \<le> 50" and h8: "(50::real) < 60"
    by simp_all
  from C9_bowl_surface_skipped [OF h1 h2 h3 h4 h5 h6 h7 h8, of "[]"]
  have "Math_sqrt (50 * 50 - 60 * 60) = None"
    and "drawSphere (- 60) (- 70) 120 120 LIQUID (11 / 10) [] =
     Some (sphereGlassBody 0 0 50 @
           [Save, BeginPath, Arc 0 0 50 0 (pi * 2), Clip,
            FillStyle waterFill, FillRect (- 60) (- 60) 120 110, Restore] @
           sphereGlassDetails 0 0 50 (50 * 0.6) (50 * 0.6 * 0.25) (0 - 50 + 5), [])"
    by blast+
  with h1 h2 h3 h4 h5 h6 h7 h8 show ?thesis by blast
qed

end
